theory Spec2Isabelle
  imports Complex_Main "HOL-Library.Sublist"
begin

section \<open>The data model of \<open>tape/data_gen.py\<close>\<close>

text \<open>
  The module reads \<open>.npz\<close> archives, cuts variable-length examples out of flat buffers
  and groups them into batches. The embedding keeps the Python names.

  \<^item> A one-dimensional numpy array is a list. Token ids, lengths and labels are Python or
    numpy integers and are modelled as \<open>int\<close>; label values are only copied, never
    computed with.
  \<^item> A two-dimensional array (the result of \<open>reshape\<close>) is its shape together with its
    row-major buffer.
  \<^item> An archive is a finite map from field names to arrays; the file system is a map from
    file names to archives.
  \<^item> Every exception the code can raise is a value of \<open>error\<close>.
\<close>

datatype error =
    FileNotFoundError string
  | KeyError string
  | ValueError
  | NameError string
  | OverflowError
  | InvalidArgumentError

datatype 'a ndarray = NDArray (shape: "nat \<times> nat") (flat: "'a list")

type_synonym archive = "string \<rightharpoonup> int list"
type_synonym filesystem = "string \<rightharpoonup> archive"

type_synonym example = "int ndarray \<times> int ndarray \<times> int ndarray"
type_synonym batch = "example list"

subsection \<open>The numpy operations the code uses\<close>

text \<open>\<open>np.load(filename)\<close>: the archive stored under that name, or the I/O error.\<close>

definition np_load :: "filesystem \<Rightarrow> string \<Rightarrow> error + archive" where
  "np_load env filename =
     (case env filename of None \<Rightarrow> Inl (FileNotFoundError filename) | Some data \<Rightarrow> Inr data)"

text \<open>\<open>data[key]\<close> on a loaded archive: a missing field raises \<open>KeyError\<close>.\<close>

definition getitem :: "archive \<Rightarrow> string \<Rightarrow> error + int list" where
  "getitem data key = (case data key of None \<Rightarrow> Inl (KeyError key) | Some a \<Rightarrow> Inr a)"

text \<open>
  \<open>a[start:stop]\<close> on a one-dimensional array of \<open>n\<close> elements: a negative bound counts
  from the end, every bound is clamped to \<open>0..n\<close>, and the slice is empty when the
  clamped stop does not exceed the clamped start. A slice never raises.
\<close>

definition clamp_index :: "nat \<Rightarrow> int \<Rightarrow> int" where
  "clamp_index n k = (if k < 0 then max (k + int n) 0 else min k (int n))"

definition np_slice :: "'a list \<Rightarrow> int \<Rightarrow> int \<Rightarrow> 'a list" where
  "np_slice a start stop =
     (let s = clamp_index (length a) start; e = clamp_index (length a) stop
      in take (nat (e - s)) (drop (nat s) a))"

text \<open>\<open>np.arange(n)\<close>: \<open>0, 1, ..., n - 1\<close>, empty when \<open>n \<le> 0\<close>.\<close>

definition arange :: "int \<Rightarrow> int list" where
  "arange n = map int [0..<nat n]"

text \<open>
  \<open>a.reshape(d, 1)\<close> on a one-dimensional array: a non-negative \<open>d\<close> must equal the
  number of elements, otherwise numpy raises \<open>ValueError\<close>; a negative \<open>d\<close> is numpy's
  "unknown dimension" and is inferred from the size.
\<close>

definition reshape :: "'a list \<Rightarrow> int \<Rightarrow> error + 'a ndarray" where
  "reshape a d =
     (if d < 0 then Inr (NDArray (length a, 1) a)
      else if int (length a) = d then Inr (NDArray (nat d, 1) a)
      else Inl ValueError)"

section \<open>The batch readers\<close>

subsection \<open>The body of the example loop\<close>

text \<open>
  Lines 44-46, 78-80 and 112-114: the three statements that build one example from the
  flat buffers, the example index \<open>i\<close>, the running \<open>offset\<close> and \<open>lengths[i]\<close>.
  The pretraining and the sequence-labeling reader slice the labels with the token
  offsets; the scalar-label reader takes \<open>labels[i:i + 1]\<close>.
\<close>

definition pretrain_example ::
  "int list \<Rightarrow> int list \<Rightarrow> nat \<Rightarrow> int \<Rightarrow> int \<Rightarrow> error + example" where
  "pretrain_example masked_token_ids labels i offset len =
     (case reshape (np_slice masked_token_ids offset (offset + len)) len of
        Inl e \<Rightarrow> Inl e
      | Inr tokens \<Rightarrow>
     (case reshape (arange len) len of
        Inl e \<Rightarrow> Inl e
      | Inr pos \<Rightarrow>
     (case reshape (np_slice labels offset (offset + len)) len of
        Inl e \<Rightarrow> Inl e
      | Inr label \<Rightarrow> Inr (tokens, pos, label))))"

definition sequence_example ::
  "int list \<Rightarrow> int list \<Rightarrow> nat \<Rightarrow> int \<Rightarrow> int \<Rightarrow> error + example" where
  "sequence_example token_ids labels i offset len =
     (case reshape (np_slice token_ids offset (offset + len)) len of
        Inl e \<Rightarrow> Inl e
      | Inr tokens \<Rightarrow>
     (case reshape (arange len) len of
        Inl e \<Rightarrow> Inl e
      | Inr pos \<Rightarrow>
     (case reshape (np_slice labels offset (offset + len)) len of
        Inl e \<Rightarrow> Inl e
      | Inr label \<Rightarrow> Inr (tokens, pos, label))))"

definition normal_example ::
  "int list \<Rightarrow> int list \<Rightarrow> nat \<Rightarrow> int \<Rightarrow> int \<Rightarrow> error + example" where
  "normal_example token_ids labels i offset len =
     (case reshape (np_slice token_ids offset (offset + len)) len of
        Inl e \<Rightarrow> Inl e
      | Inr tokens \<Rightarrow>
     (case reshape (arange len) len of
        Inl e \<Rightarrow> Inl e
      | Inr pos \<Rightarrow>
     (case reshape (np_slice labels (int i) (int i + 1)) 1 of
        Inl e \<Rightarrow> Inl e
      | Inr label \<Rightarrow> Inr (tokens, pos, label))))"

subsection \<open>The loops\<close>

text \<open>
  The three readers have the same control flow (lines 36-53, 69-87, 103-121) and differ
  only in how a file is decoded and in the loop body above, so the loops are written once,
  over the loop body \<open>ex\<close>.

  A reader is a generator. One full pass is modelled by what its consumer observes: the
  batches in the order they are yielded, each with the contents the accumulator
  \<open>examples\<close> has at the moment of the \<open>yield\<close>, and the exception that ends the pass,
  if any. (The generator hands out the accumulator object itself and clears it when it
  is resumed; the model records the batch as it is when handed out.)

  \<open>examples_loop\<close> is \<open>for i in range(lengths.size)\<close>: it returns the batches yielded
  while the file is read and either the exception or the accumulator carried to the next
  file. The accumulator is yielded when its length equals \<open>batch_size\<close> right after an
  append, and \<open>offset\<close> advances by \<open>lengths[i]\<close>.
\<close>

fun examples_loop ::
  "(nat \<Rightarrow> int \<Rightarrow> int \<Rightarrow> error + example) \<Rightarrow> int \<Rightarrow> int list \<Rightarrow> nat \<Rightarrow> int \<Rightarrow> batch
     \<Rightarrow> batch list \<times> (error + batch)" where
  "examples_loop ex batch_size [] i offset examples = ([], Inr examples)"
| "examples_loop ex batch_size (len # lengths) i offset examples =
     (case ex i offset len of
        Inl e \<Rightarrow> ([], Inl e)
      | Inr x \<Rightarrow>
          (let examples' = examples @ [x] in
           if int (length examples') = batch_size
           then (case examples_loop ex batch_size lengths (Suc i) (offset + len) [] of
                   (ys, r) \<Rightarrow> (examples' # ys, r))
           else examples_loop ex batch_size lengths (Suc i) (offset + len) examples'))"

text \<open>
  Decoding one file gives the loop body for its buffers and its \<open>lengths\<close>, or raises.
  Only the pretraining reader calls the masking transform, which draws random numbers:
  the state \<open>'r\<close> of the random generator is threaded through the decoders.
\<close>

type_synonym 'r loader =
  "'r \<Rightarrow> string \<Rightarrow> (error + ((nat \<Rightarrow> int \<Rightarrow> int \<Rightarrow> error + example) \<times> int list)) \<times> 'r"

text \<open>
  \<open>files_loop\<close> is \<open>for filename in filenames\<close>: \<open>offset\<close> and \<open>i\<close> start at 0 in
  every file, the accumulator is carried over.
\<close>

fun files_loop ::
  "'r loader \<Rightarrow> int \<Rightarrow> string list \<Rightarrow> 'r \<Rightarrow> batch \<Rightarrow> (batch list \<times> (error + batch)) \<times> 'r" where
  "files_loop load batch_size [] rng examples = (([], Inr examples), rng)"
| "files_loop load batch_size (filename # filenames) rng examples =
     (case load rng filename of
        (Inl e, rng') \<Rightarrow> (([], Inl e), rng')
      | (Inr (ex, lengths), rng') \<Rightarrow>
          (case examples_loop ex batch_size lengths 0 0 examples of
             (ys, Inl e) \<Rightarrow> ((ys, Inl e), rng')
           | (ys, Inr examples') \<Rightarrow>
               (case files_loop load batch_size filenames rng' examples' of
                  ((zs, r), rng'') \<Rightarrow> ((ys @ zs, r), rng''))))"

text \<open>
  The whole body of \<open>__reader__\<close>: the accumulator starts empty, and after the last file
  a non-empty accumulator is yielded as the final batch.
\<close>

definition reader_body ::
  "'r loader \<Rightarrow> int \<Rightarrow> string list \<Rightarrow> 'r \<Rightarrow> (batch list \<times> error option) \<times> 'r" where
  "reader_body load batch_size filenames rng =
     (case files_loop load batch_size filenames rng [] of
        ((ys, Inl e), rng') \<Rightarrow> ((ys, Some e), rng')
      | ((ys, Inr examples), rng') \<Rightarrow>
          ((if length examples > 0 then ys @ [examples] else ys, None), rng'))"

subsection \<open>Decoding a file (lines 38-40, 71-74, 105-108)\<close>

text \<open>
  \<open>apply_bert_mask\<close> is imported from \<open>pahelix.utils.language_model_tools\<close> and is a
  parameter of the model: from the state of the random generator and the token buffer it
  gives the masked buffer, the label buffer and the new state.
\<close>

type_synonym 'r mask = "'r \<Rightarrow> int list \<Rightarrow> (int list \<times> int list) \<times> 'r"

definition pretrain_load :: "'r mask \<Rightarrow> filesystem \<Rightarrow> 'r loader" where
  "pretrain_load apply_bert_mask env rng filename =
     (case np_load env filename of
        Inl e \<Rightarrow> (Inl e, rng)
      | Inr data \<Rightarrow>
     (case getitem data ''token_ids'' of
        Inl e \<Rightarrow> (Inl e, rng)
      | Inr token_ids \<Rightarrow>
     (case apply_bert_mask rng token_ids of
        ((masked_token_ids, labels), rng') \<Rightarrow>
     (case getitem data ''lengths'' of
        Inl e \<Rightarrow> (Inl e, rng')
      | Inr lengths \<Rightarrow> (Inr (pretrain_example masked_token_ids labels, lengths), rng')))))"

definition sequence_load :: "filesystem \<Rightarrow> string \<Rightarrow> 'r loader" where
  "sequence_load env label_name rng filename =
     (case np_load env filename of
        Inl e \<Rightarrow> (Inl e, rng)
      | Inr data \<Rightarrow>
     (case getitem data ''token_ids'' of
        Inl e \<Rightarrow> (Inl e, rng)
      | Inr token_ids \<Rightarrow>
     (case getitem data label_name of
        Inl e \<Rightarrow> (Inl e, rng)
      | Inr labels \<Rightarrow>
     (case getitem data ''lengths'' of
        Inl e \<Rightarrow> (Inl e, rng)
      | Inr lengths \<Rightarrow> (Inr (sequence_example token_ids labels, lengths), rng)))))"

definition normal_load :: "filesystem \<Rightarrow> string \<Rightarrow> 'r loader" where
  "normal_load env label_name rng filename =
     (case np_load env filename of
        Inl e \<Rightarrow> (Inl e, rng)
      | Inr data \<Rightarrow>
     (case getitem data ''token_ids'' of
        Inl e \<Rightarrow> (Inl e, rng)
      | Inr token_ids \<Rightarrow>
     (case getitem data label_name of
        Inl e \<Rightarrow> (Inl e, rng)
      | Inr labels \<Rightarrow>
     (case getitem data ''lengths'' of
        Inl e \<Rightarrow> (Inl e, rng)
      | Inr lengths \<Rightarrow> (Inr (normal_example token_ids labels, lengths), rng)))))"

subsection \<open>The reader factories\<close>

text \<open>
  A factory only captures its arguments and returns the closure \<open>__reader__\<close>. Calling
  the closure runs one pass against the file system and the random generator as they are
  at that moment; the pass gives back the new state of the random generator.
\<close>

type_synonym 'r reader = "filesystem \<Rightarrow> 'r \<Rightarrow> (batch list \<times> error option) \<times> 'r"

definition pretrain_sample_reader :: "'r mask \<Rightarrow> string list \<Rightarrow> int \<Rightarrow> 'r reader" where
  "pretrain_sample_reader apply_bert_mask filenames batch_size =
     (\<lambda>env rng. reader_body (pretrain_load apply_bert_mask env) batch_size filenames rng)"

definition sequence_sample_reader :: "string list \<Rightarrow> int \<Rightarrow> string \<Rightarrow> 'r reader" where
  "sequence_sample_reader filenames batch_size label_name =
     (\<lambda>env rng. reader_body (sequence_load env label_name) batch_size filenames rng)"

definition normal_sample_reader :: "string list \<Rightarrow> int \<Rightarrow> string \<Rightarrow> 'r reader" where
  "normal_sample_reader filenames batch_size label_name =
     (\<lambda>env rng. reader_body (normal_load env label_name) batch_size filenames rng)"

subsection \<open>The dispatcher\<close>

text \<open>
  \<open>model_config\<close> is a dictionary with string values (the configuration mapping of the
  specification: \<open>task\<close> and \<open>label_name\<close> are strings). \<open>model_config['task']\<close> raises
  \<open>KeyError\<close> when the key is absent; \<open>model_config.get('label_name', 'labels')\<close>
  defaults. The message of the \<open>NameError\<close> is \<open>'Task %s is unsupport.' % task\<close>.
\<close>

definition dict_get :: "(string \<rightharpoonup> string) \<Rightarrow> string \<Rightarrow> string \<Rightarrow> string" where
  "dict_get d key dflt = (case d key of None \<Rightarrow> dflt | Some v \<Rightarrow> v)"

definition get_sample_generator ::
  "'r mask \<Rightarrow> string list \<Rightarrow> int \<Rightarrow> (string \<rightharpoonup> string) \<Rightarrow> error + 'r reader" where
  "get_sample_generator apply_bert_mask filenames batch_size model_config =
     (case model_config ''task'' of
        None \<Rightarrow> Inl (KeyError ''task'')
      | Some task \<Rightarrow>
          if task = ''pretrain''
          then Inr (pretrain_sample_reader apply_bert_mask filenames batch_size)
          else if task = ''seq_classification''
          then (let label_name = dict_get model_config ''label_name'' ''labels''
                in Inr (sequence_sample_reader filenames batch_size label_name))
          else if task \<in> set [''classification'', ''regression'']
          then (let label_name = dict_get model_config ''label_name'' ''labels''
                in Inr (normal_sample_reader filenames batch_size label_name))
          else Inl (NameError (''Task '' @ task @ '' is unsupport.'')))"

subsection \<open>The readers as generators\<close>

text \<open>
  \<open>__reader__\<close> contains \<open>yield\<close>, so calling it runs no statement of its body: it
  returns a generator object, and each \<open>next\<close> on that object runs the body from where
  it was suspended up to the following \<open>yield\<close>, to an exception or to the end. The
  definitions below are the body cut at its two \<open>yield\<close> statements (lines 49 and 53,
  83 and 87, 117 and 121).

  What \<open>next\<close> gives its caller: a batch, an exception, or the end of the iteration.
\<close>

datatype outcome = Yield batch | Raise error | StopIteration

text \<open>
  Where a generator stands. \<open>Created\<close>: the body has not started. \<open>Suspended_in_loop\<close>:
  at the \<open>yield\<close> inside the example loop, with the locals that are live there: the
  decoded buffers of the current file (the loop body \<open>ex\<close>), the entries of \<open>lengths\<close>
  still to come, \<open>i\<close>, \<open>offset\<close>, \<open>lengths[i]\<close> and the accumulator it handed out.
  \<open>Suspended_at_end\<close>: at the final \<open>yield\<close>. \<open>Finished\<close>: the body has returned or
  raised; every later \<open>next\<close> gives \<open>StopIteration\<close>. The files still to be opened are the
  field \<open>gen_filenames\<close> of the generator; \<open>filenames\<close> and \<open>batch_size\<close> are captured
  by the closure and never assigned.
\<close>

datatype control =
    Created
  | Suspended_in_loop "nat \<Rightarrow> int \<Rightarrow> int \<Rightarrow> error + example" "int list" nat int int batch
  | Suspended_at_end batch
  | Finished

record 'r generator =
  gen_load :: "'r loader"
  gen_batch_size :: int
  gen_filenames :: "string list"
  gen_control :: control

text \<open>
  The example loop up to its next \<open>yield\<close>: it stops at the first append that fills the
  accumulator, before \<open>offset += lengths[i]\<close> has run.
\<close>

datatype loop_result =
    Loop_suspended batch "int list" nat int int
  | Loop_exhausted batch
  | Loop_raised error

fun step_examples ::
  "(nat \<Rightarrow> int \<Rightarrow> int \<Rightarrow> error + example) \<Rightarrow> int \<Rightarrow> int list \<Rightarrow> nat \<Rightarrow> int \<Rightarrow> batch
     \<Rightarrow> loop_result" where
  "step_examples ex batch_size [] i offset examples = Loop_exhausted examples"
| "step_examples ex batch_size (len # lengths) i offset examples =
     (case ex i offset len of
        Inl e \<Rightarrow> Loop_raised e
      | Inr x \<Rightarrow>
          (let examples' = examples @ [x] in
           if int (length examples') = batch_size
           then Loop_suspended examples' lengths i offset len
           else step_examples ex batch_size lengths (Suc i) (offset + len) examples'))"

text \<open>The file loop up to the next \<open>yield\<close>, and the final \<open>yield\<close> after it.\<close>

fun step_files ::
  "'r generator \<Rightarrow> string list \<Rightarrow> 'r \<Rightarrow> batch \<Rightarrow> (outcome \<times> 'r generator) \<times> 'r" where
  "step_files g [] rng examples =
     (if length examples > 0
      then ((Yield examples,
             g\<lparr>gen_filenames := [], gen_control := Suspended_at_end examples\<rparr>), rng)
      else ((StopIteration, g\<lparr>gen_filenames := [], gen_control := Finished\<rparr>), rng))"
| "step_files g (filename # filenames) rng examples =
     (case gen_load g rng filename of
        (Inl e, rng') \<Rightarrow> ((Raise e, g\<lparr>gen_filenames := filenames, gen_control := Finished\<rparr>), rng')
      | (Inr (ex, lengths), rng') \<Rightarrow>
          (case step_examples ex (gen_batch_size g) lengths 0 0 examples of
             Loop_raised e \<Rightarrow>
               ((Raise e, g\<lparr>gen_filenames := filenames, gen_control := Finished\<rparr>), rng')
           | Loop_suspended examples' rest i offset len \<Rightarrow>
               ((Yield examples',
                 g\<lparr>gen_filenames := filenames,
                   gen_control := Suspended_in_loop ex rest i offset len examples'\<rparr>), rng')
           | Loop_exhausted examples' \<Rightarrow> step_files g filenames rng' examples'))"

text \<open>
  One \<open>next\<close>. Resuming from the \<open>yield\<close> inside the loop first runs
  \<open>examples.clear()\<close> and \<open>offset += lengths[i]\<close>, then goes on with the following
  value of \<open>i\<close>. The state of the random generator is the one of the process at the
  moment of the call, and \<open>next\<close> gives back the state it leaves.
\<close>

definition next_batch :: "'r generator \<Rightarrow> 'r \<Rightarrow> (outcome \<times> 'r generator) \<times> 'r" where
  "next_batch g rng =
     (case gen_control g of
        Created \<Rightarrow> (let examples = [] in step_files g (gen_filenames g) rng examples)
      | Suspended_in_loop ex lengths i offset len examples \<Rightarrow>
          (let examples = []
           in case step_examples ex (gen_batch_size g) lengths (Suc i) (offset + len) examples of
                Loop_raised e \<Rightarrow> ((Raise e, g\<lparr>gen_control := Finished\<rparr>), rng)
              | Loop_suspended examples' rest i' offset' len' \<Rightarrow>
                  ((Yield examples',
                    g\<lparr>gen_control := Suspended_in_loop ex rest i' offset' len' examples'\<rparr>), rng)
              | Loop_exhausted examples' \<Rightarrow> step_files g (gen_filenames g) rng examples')
      | Suspended_at_end examples \<Rightarrow> ((StopIteration, g\<lparr>gen_control := Finished\<rparr>), rng)
      | Finished \<Rightarrow> ((StopIteration, g), rng))"










fun solo :: "nat \<Rightarrow> 'r generator \<Rightarrow> 'r \<Rightarrow> outcome list" where
  "solo 0 g rng = []"
| "solo (Suc n) g rng =
     (case next_batch g rng of ((out, g'), rng') \<Rightarrow> out # solo n g' rng')"

section \<open>The batch builder for prediction\<close>

text \<open>
  \<open>gen_batch_data\<close> (lines 184-210). The tokenizer is a parameter; it may raise. A
  \<open>LoDTensor\<close> is its data, its offset table and the place it is stored at.
  \<open>np.array(token_ids, dtype='int64')\<close> raises \<open>OverflowError\<close> on a Python integer
  outside the 64-bit range; the positions come from \<open>np.arange\<close>, which produces 64-bit
  integers, so their conversion cannot fail. \<open>reshape([-1, 1])\<close> infers the number of rows.
\<close>

record 'p lod_tensor =
  tensor_data :: "int ndarray"
  tensor_lod :: "nat list list"
  tensor_place :: 'p

record 'p batch_data =
  protein_token :: "'p lod_tensor"
  protein_pos :: "'p lod_tensor"

text \<open>The loop of lines 198-202 over the state \<open>(token_ids, pos, lods)\<close>.\<close>

fun gen_batch_loop ::
  "(string \<Rightarrow> error + int list) \<Rightarrow> string list \<Rightarrow> int list \<times> int list \<times> nat list
     \<Rightarrow> error + (int list \<times> int list \<times> nat list)" where
  "gen_batch_loop gen_token_ids [] st = Inr st"
| "gen_batch_loop gen_token_ids (example # examples) (token_ids, pos, lods) =
     (case gen_token_ids example of
        Inl e \<Rightarrow> Inl e
      | Inr cur_token_ids \<Rightarrow>
          (let token_ids' = token_ids @ cur_token_ids;
               pos' = pos @ arange (int (length cur_token_ids));
               lods' = lods @ [length token_ids']
           in gen_batch_loop gen_token_ids examples (token_ids', pos', lods')))"

definition int64_array :: "int list \<Rightarrow> error + int list" where
  "int64_array xs =
     (if list_all (\<lambda>x. - (2 ^ 63) \<le> x \<and> x < 2 ^ 63) xs then Inr xs else Inl OverflowError)"

text \<open>
  \<open>tensor.set(array, place)\<close> stores the data; the tensor has no offset table yet.
  \<open>tensor.set_lod(lod)\<close> validates the table against the number of rows of the data
  and raises Paddle's invalid-argument error ("the provided LoD is invalid") when the
  check fails. The check (\<open>CheckLoD\<close>): every level has at least two offsets, starts
  with 0 and does not descend; when the tensor has rows, the last offset of the last
  level is the number of rows; the last offset of a level is the size of the next level
  minus one.
\<close>

definition tensor_set :: "int ndarray \<Rightarrow> 'p \<Rightarrow> 'p lod_tensor" where
  "tensor_set data place = \<lparr> tensor_data = data, tensor_lod = [], tensor_place = place \<rparr>"

definition check_lod :: "nat list list \<Rightarrow> nat \<Rightarrow> bool" where
  "check_lod lod tensor_height =
     (lod = [] \<or>
      (list_all (\<lambda>level. 2 \<le> length level \<and> hd level = 0 \<and> sorted level) lod \<and>
       (0 < tensor_height \<longrightarrow> last (last lod) = tensor_height) \<and>
       list_all (\<lambda>k. last (lod ! k) = length (lod ! Suc k) - 1) [0..<length lod - 1]))"

definition set_lod :: "'p lod_tensor \<Rightarrow> nat list list \<Rightarrow> error + 'p lod_tensor" where
  "set_lod tensor lod =
     (if check_lod lod (fst (shape (tensor_data tensor)))
      then Inr (tensor\<lparr> tensor_lod := lod \<rparr>)
      else Inl InvalidArgumentError)"

text \<open>Lines 203-210, in the order of the statements.\<close>

definition gen_batch_data ::
  "string list \<Rightarrow> (string \<Rightarrow> error + int list) \<Rightarrow> 'p \<Rightarrow> error + 'p batch_data" where
  "gen_batch_data examples gen_token_ids place =
     (case gen_batch_loop gen_token_ids examples ([], [], [0]) of
        Inl e \<Rightarrow> Inl e
      | Inr (token_ids, pos, lods) \<Rightarrow>
     (case int64_array token_ids of
        Inl e \<Rightarrow> Inl e
      | Inr token_array \<Rightarrow>
     (case reshape token_array (- 1) of
        Inl e \<Rightarrow> Inl e
      | Inr token_matrix \<Rightarrow>
     (case set_lod (tensor_set token_matrix place) [lods] of
        Inl e \<Rightarrow> Inl e
      | Inr token_tensor \<Rightarrow>
     (case reshape pos (- 1) of
        Inl e \<Rightarrow> Inl e
      | Inr pos_matrix \<Rightarrow>
     (case set_lod (tensor_set pos_matrix place) [lods] of
        Inl e \<Rightarrow> Inl e
      | Inr pos_tensor \<Rightarrow>
          Inr \<lparr> protein_token = token_tensor, protein_pos = pos_tensor \<rparr>))))))"

section \<open>Reference definitions for the properties\<close>

subsection \<open>Archives\<close>

text \<open>
  The content of a field of an archive (empty when the file or the field is absent), and
  the presence of a list of fields.
\<close>

definition archive_field :: "filesystem \<Rightarrow> string \<Rightarrow> string \<Rightarrow> int list" where
  "archive_field env filename key =
     (case env filename of
        None \<Rightarrow> []
      | Some data \<Rightarrow> (case data key of None \<Rightarrow> [] | Some a \<Rightarrow> a))"

definition has_fields :: "filesystem \<Rightarrow> string list \<Rightarrow> string \<Rightarrow> bool" where
  "has_fields env keys filename =
     (case env filename of
        None \<Rightarrow> False
      | Some data \<Rightarrow> list_all (\<lambda>key. data key \<noteq> None) keys)"

text \<open>
  The \<open>lengths\<close> entries of a list of files, in file order and then in example order,
  and the total number \<open>N\<close> of examples.
\<close>

definition all_lengths :: "filesystem \<Rightarrow> string list \<Rightarrow> int list" where
  "all_lengths env filenames = concat (map (\<lambda>f. archive_field env f ''lengths'') filenames)"

definition example_count :: "filesystem \<Rightarrow> string list \<Rightarrow> nat" where
  "example_count env filenames = length (all_lengths env filenames)"

text \<open>A length is a token count: no entry of \<open>lengths\<close> is negative.\<close>

definition non_negative :: "int list \<Rightarrow> bool" where
  "non_negative lengths = list_all (\<lambda>len. 0 \<le> len) lengths"

text \<open>
  The archive invariants of the data model. Every variant needs \<open>token_ids\<close> and
  \<open>lengths\<close> with \<open>sum(lengths) == len(token_ids)\<close>; the per-token label field has the
  length of \<open>token_ids\<close>, the per-example label field the length of \<open>lengths\<close>. The
  pretraining reader takes its labels from the masking transform, whose contract is that
  both buffers it returns have the length of its input.
\<close>

definition pretrain_well_formed :: "filesystem \<Rightarrow> string \<Rightarrow> bool" where
  "pretrain_well_formed env filename =
     (has_fields env [''token_ids'', ''lengths''] filename \<and>
      non_negative (archive_field env filename ''lengths'') \<and>
      sum_list (archive_field env filename ''lengths'') =
        int (length (archive_field env filename ''token_ids'')))"

definition sequence_well_formed :: "filesystem \<Rightarrow> string \<Rightarrow> string \<Rightarrow> bool" where
  "sequence_well_formed env label_name filename =
     (has_fields env [''token_ids'', label_name, ''lengths''] filename \<and>
      non_negative (archive_field env filename ''lengths'') \<and>
      sum_list (archive_field env filename ''lengths'') =
        int (length (archive_field env filename ''token_ids'')) \<and>
      length (archive_field env filename label_name) =
        length (archive_field env filename ''token_ids''))"

definition normal_well_formed :: "filesystem \<Rightarrow> string \<Rightarrow> string \<Rightarrow> bool" where
  "normal_well_formed env label_name filename =
     (has_fields env [''token_ids'', label_name, ''lengths''] filename \<and>
      non_negative (archive_field env filename ''lengths'') \<and>
      sum_list (archive_field env filename ''lengths'') =
        int (length (archive_field env filename ''token_ids'')) \<and>
      length (archive_field env filename label_name) =
        length (archive_field env filename ''lengths''))"

definition keeps_length :: "'r mask \<Rightarrow> bool" where
  "keeps_length apply_bert_mask =
     (\<forall>rng a. length (fst (fst (apply_bert_mask rng a))) = length a \<and>
              length (snd (fst (apply_bert_mask rng a))) = length a)"

subsection \<open>The examples of an archive, as the specification describes them\<close>

text \<open>
  Example \<open>i\<close> of an archive starts at the sum of the lengths before it and has
  \<open>lengths[i]\<close> tokens. With per-token labels the label is the slice of the label
  buffer at the same place; with per-example labels it is the single entry \<open>labels[i]\<close>.
\<close>

definition token_example :: "int list \<Rightarrow> int list \<Rightarrow> int list \<Rightarrow> nat \<Rightarrow> example" where
  "token_example token_ids labels lengths i =
     (let offset = nat (sum_list (take i lengths)); n = nat (lengths ! i)
      in (NDArray (n, 1) (take n (drop offset token_ids)),
          NDArray (n, 1) (map int [0..<n]),
          NDArray (n, 1) (take n (drop offset labels))))"

definition scalar_example :: "int list \<Rightarrow> int list \<Rightarrow> int list \<Rightarrow> nat \<Rightarrow> example" where
  "scalar_example token_ids labels lengths i =
     (let offset = nat (sum_list (take i lengths)); n = nat (lengths ! i)
      in (NDArray (n, 1) (take n (drop offset token_ids)),
          NDArray (n, 1) (map int [0..<n]),
          NDArray (1, 1) [labels ! i]))"

definition sequence_examples :: "filesystem \<Rightarrow> string \<Rightarrow> string \<Rightarrow> example list" where
  "sequence_examples env label_name filename =
     (let lengths = archive_field env filename ''lengths''
      in map (token_example (archive_field env filename ''token_ids'')
                (archive_field env filename label_name) lengths) [0..<length lengths])"

definition normal_examples :: "filesystem \<Rightarrow> string \<Rightarrow> string \<Rightarrow> example list" where
  "normal_examples env label_name filename =
     (let lengths = archive_field env filename ''lengths''
      in map (scalar_example (archive_field env filename ''token_ids'')
                (archive_field env filename label_name) lengths) [0..<length lengths])"

text \<open>
  The examples of a pretraining pass: every file is masked once, in file order, with the
  state of the random generator the previous file left.
\<close>

fun pretrain_examples :: "'r mask \<Rightarrow> filesystem \<Rightarrow> string list \<Rightarrow> 'r \<Rightarrow> example list" where
  "pretrain_examples apply_bert_mask env [] rng = []"
| "pretrain_examples apply_bert_mask env (filename # filenames) rng =
     (case apply_bert_mask rng (archive_field env filename ''token_ids'') of
        ((masked_token_ids, labels), rng') \<Rightarrow>
          (let lengths = archive_field env filename ''lengths''
           in map (token_example masked_token_ids labels lengths) [0..<length lengths]) @
          pretrain_examples apply_bert_mask env filenames rng')"

subsection \<open>The loops without batching, and batching alone\<close>

text \<open>
  The proofs split a pass in two. \<open>collect\<close> and \<open>collect_files\<close> run the loop bodies in
  the order of the loops and give the examples built before the first exception, and
  that exception. \<open>feed\<close> pushes a list of examples through the accumulator: the full
  batches handed out and the accumulator left. \<open>batches\<close> adds the final yield.
\<close>

fun collect ::
  "(nat \<Rightarrow> int \<Rightarrow> int \<Rightarrow> error + example) \<Rightarrow> int list \<Rightarrow> nat \<Rightarrow> int
     \<Rightarrow> example list \<times> error option" where
  "collect ex [] i offset = ([], None)"
| "collect ex (len # lengths) i offset =
     (case ex i offset len of
        Inl e \<Rightarrow> ([], Some e)
      | Inr x \<Rightarrow> (case collect ex lengths (Suc i) (offset + len) of (xs, r) \<Rightarrow> (x # xs, r)))"

fun collect_files ::
  "'r loader \<Rightarrow> string list \<Rightarrow> 'r \<Rightarrow> (example list \<times> error option) \<times> 'r" where
  "collect_files load [] rng = (([], None), rng)"
| "collect_files load (filename # filenames) rng =
     (case load rng filename of
        (Inl e, rng') \<Rightarrow> (([], Some e), rng')
      | (Inr (ex, lengths), rng') \<Rightarrow>
          (case collect ex lengths 0 0 of
             (xs, Some e) \<Rightarrow> ((xs, Some e), rng')
           | (xs, None) \<Rightarrow>
               (case collect_files load filenames rng' of
                  ((zs, r), rng'') \<Rightarrow> ((xs @ zs, r), rng''))))"

fun feed :: "int \<Rightarrow> 'a list \<Rightarrow> 'a list \<Rightarrow> 'a list list \<times> 'a list" where
  "feed batch_size acc [] = ([], acc)"
| "feed batch_size acc (x # xs) =
     (let acc' = acc @ [x] in
      if int (length acc') = batch_size
      then (case feed batch_size [] xs of (ys, r) \<Rightarrow> (acc' # ys, r))
      else feed batch_size acc' xs)"

definition batches :: "int \<Rightarrow> 'a list \<Rightarrow> 'a list list" where
  "batches B xs = (case feed B [] xs of (ys, a) \<Rightarrow> if a \<noteq> [] then ys @ [a] else ys)"

definition outcome :: "error option \<Rightarrow> 'a \<Rightarrow> error + 'a" where
  "outcome r a = (case r of None \<Rightarrow> Inr a | Some e \<Rightarrow> Inl e)"

text \<open>
  \<open>whole len x\<close>: the example has exactly \<open>len\<close> tokens, as a column, and its positions
  are \<open>0..len - 1\<close>. \<open>cuts n ex\<close>: a loop body over a token buffer of \<open>n\<close> elements
  raises nothing but \<open>ValueError\<close> and, when it succeeds on a non-negative length, gives
  a whole example that lies inside the buffer. \<open>decodes\<close>: a file is decoded without
  an exception, to such a loop body and to the file's \<open>lengths\<close>.
\<close>

definition whole :: "int \<Rightarrow> example \<Rightarrow> bool" where
  "whole len x =
     (case x of (tokens, pos, label) \<Rightarrow>
        shape tokens = (nat len, 1) \<and> length (flat tokens) = nat len \<and>
        pos = NDArray (nat len, 1) (map int [0..<nat len]))"

definition cuts :: "nat \<Rightarrow> (nat \<Rightarrow> int \<Rightarrow> int \<Rightarrow> error + example) \<Rightarrow> bool" where
  "cuts n ex =
     (\<forall>i off len.
        (case ex i off len of
           Inl e \<Rightarrow> e = ValueError
         | Inr x \<Rightarrow> 0 \<le> len \<longrightarrow> whole len x \<and> (0 \<le> off \<and> off \<le> int n \<longrightarrow> off + len \<le> int n)))"

definition decodes ::
  "'r loader \<Rightarrow> (string \<Rightarrow> nat) \<Rightarrow> (string \<Rightarrow> int list) \<Rightarrow> string \<Rightarrow> bool" where
  "decodes load size_of lengths_of filename =
     (\<forall>rng. \<exists>ex rng'. load rng filename = (Inr (ex, lengths_of filename), rng') \<and>
                       cuts (size_of filename) ex)"

subsection \<open>Exact batching\<close>

text \<open>
  The batching rule in the words of the specification: \<open>ceil(N / B)\<close> batches, the first
  \<open>N // B\<close> of size exactly \<open>B\<close>, and a last one of size \<open>N % B\<close> unless
  \<open>N % B = 0\<close>.
\<close>

definition exact_batching :: "int \<Rightarrow> nat \<Rightarrow> 'a list list \<Rightarrow> bool" where
  "exact_batching B N bs =
     (int (length bs) = \<lceil>real N / real_of_int B\<rceil> \<and>
      (\<forall>k < N div nat B. length (bs ! k) = nat B) \<and>
      (if N mod nat B = 0 then length bs = N div nat B
       else length bs = Suc (N div nat B) \<and> length (last bs) = N mod nat B))"

subsection \<open>The inputs and the offset table of the batch builder\<close>

text \<open>
  \<open>tokenizes\<close>: the tokenizer accepts the sequence and its ids fit 64 bits.
  \<open>token_lists\<close>: the id lists of the input sequences. \<open>lod_offsets\<close>: the cumulative
  sums \<open>[0, len_0, len_0 + len_1, ...]\<close> of a list of counts. \<open>char_tokenizer\<close> gives
  one id per character, its code.
\<close>

definition tokenizes :: "(string \<Rightarrow> error + int list) \<Rightarrow> string \<Rightarrow> bool" where
  "tokenizes gen_token_ids example =
     (case gen_token_ids example of
        Inl e \<Rightarrow> False
      | Inr ids \<Rightarrow> list_all (\<lambda>x. - (2 ^ 63) \<le> x \<and> x < 2 ^ 63) ids)"

definition token_lists :: "(string \<Rightarrow> error + int list) \<Rightarrow> string list \<Rightarrow> int list list" where
  "token_lists gen_token_ids examples =
     map (\<lambda>example. case gen_token_ids example of Inl e \<Rightarrow> [] | Inr ids \<Rightarrow> ids) examples"

definition lod_offsets :: "nat list \<Rightarrow> nat list" where
  "lod_offsets lens = map (\<lambda>k. sum_list (take k lens)) [0..<Suc (length lens)]"

definition char_tokenizer :: "string \<Rightarrow> error + int list" where
  "char_tokenizer example = Inr (map (\<lambda>c. int (of_char c)) example)"

subsection \<open>Two passes\<close>





text \<open>
  The rest of a pass. \<open>finish\<close> is the body of \<open>__reader__\<close> from the head of the file
  loop with a given accumulator; \<open>rest g\<close> is what the generator \<open>g\<close> still has to hand
  out from its control point, in terms of the loops of the whole pass; \<open>follows\<close>
  relates a result of \<open>next\<close> to the rest before the call.
\<close>

definition finish ::
  "'r loader \<Rightarrow> int \<Rightarrow> string list \<Rightarrow> 'r \<Rightarrow> batch \<Rightarrow> (batch list \<times> error option) \<times> 'r" where
  "finish load batch_size filenames rng examples =
     (case files_loop load batch_size filenames rng examples of
        ((ys, Inl e), rng') \<Rightarrow> ((ys, Some e), rng')
      | ((ys, Inr examples'), rng') \<Rightarrow>
          ((if length examples' > 0 then ys @ [examples'] else ys, None), rng'))"

definition rest :: "'r generator \<Rightarrow> 'r \<Rightarrow> (batch list \<times> error option) \<times> 'r" where
  "rest g rng =
     (case gen_control g of
        Created \<Rightarrow> finish (gen_load g) (gen_batch_size g) (gen_filenames g) rng []
      | Suspended_in_loop ex lengths i offset len examples \<Rightarrow>
          (case examples_loop ex (gen_batch_size g) lengths (Suc i) (offset + len) [] of
             (ys, Inl e) \<Rightarrow> ((ys, Some e), rng)
           | (ys, Inr examples) \<Rightarrow>
               (case finish (gen_load g) (gen_batch_size g) (gen_filenames g) rng examples of
                  ((zs, r), rng') \<Rightarrow> ((ys @ zs, r), rng')))
      | Suspended_at_end examples \<Rightarrow> (([], None), rng)
      | Finished \<Rightarrow> (([], None), rng))"


section \<open>Concrete inputs\<close>

text \<open>The id that replaces a masked token, and the label of an unmasked position.\<close>

definition mask_token :: int where
  "mask_token = 0"

definition ignore_label :: int where
  "ignore_label = - 1"

text \<open>
  Modelled from the spec: \<open>apply_bert_mask\<close> is missing from the sources. Section 4.1
  gives its contract: a masked buffer and a label buffer of the length of the input,
  where unmasked positions carry an "ignore" label, under a masking policy with a mask
  probability and a replacement distribution. \<open>demo_mask\<close> is one transform within that
  contract: it masks the position its random state selects and advances the state.
\<close>

definition demo_mask :: "nat mask" where
  "demo_mask rng token_ids =
     (let n = length token_ids; k = rng mod n
      in ((map (\<lambda>j. if j = k then mask_token else token_ids ! j) [0..<n],
           map (\<lambda>j. if j = k then token_ids ! j else ignore_label) [0..<n]),
          Suc rng))"

text \<open>
  A file system with six archives: \<open>a.npz\<close> and \<open>c.npz\<close> carry per-token labels,
  \<open>b.npz\<close> per-example labels, \<open>e.npz\<close> holds no example, \<open>t.npz\<close> has a token
  more than its lengths account for, and \<open>o.npz\<close> a token less.
\<close>

definition demo_env :: filesystem where
  "demo_env =
     [''a.npz'' \<mapsto> [''token_ids'' \<mapsto> [1, 2, 3, 4, 5], ''lengths'' \<mapsto> [2, 3],
                   ''labels'' \<mapsto> [10, 20, 30, 40, 50]],
      ''b.npz'' \<mapsto> [''token_ids'' \<mapsto> [6, 7, 8, 9, 10, 11], ''lengths'' \<mapsto> [3, 1, 2],
                   ''labels'' \<mapsto> [7, 8, 9]],
      ''c.npz'' \<mapsto> [''token_ids'' \<mapsto> [6, 7, 8], ''lengths'' \<mapsto> [1, 2],
                   ''labels'' \<mapsto> [60, 70, 80]],
      ''e.npz'' \<mapsto> [''token_ids'' \<mapsto> [], ''lengths'' \<mapsto> [], ''labels'' \<mapsto> []],
      ''t.npz'' \<mapsto> [''token_ids'' \<mapsto> [1, 2, 3], ''lengths'' \<mapsto> [2],
                   ''labels'' \<mapsto> [10, 20, 30]],
      ''o.npz'' \<mapsto> [''token_ids'' \<mapsto> [1, 2, 3], ''lengths'' \<mapsto> [2, 2],
                   ''labels'' \<mapsto> [10, 20, 30]]]"



section \<open>Lemmas\<close>

lemma feed_append:
  "feed B acc (xs @ ys) =
     (case feed B acc xs of (b1, a1) \<Rightarrow> (case feed B a1 ys of (b2, a2) \<Rightarrow> (b1 @ b2, a2)))"
  by (induction xs arbitrary: acc) (auto simp: Let_def split: prod.splits)

lemma examples_loop_feed:
  "examples_loop ex B ls i off acc =
     (case collect ex ls i off of (xs, r) \<Rightarrow>
        (case feed B acc xs of (ys, a) \<Rightarrow> (ys, outcome r a)))"
  by (induction ls arbitrary: i off acc)
     (auto simp: Let_def outcome_def split: prod.splits sum.splits option.splits)

lemma files_loop_feed:
  "files_loop load B fns rng acc =
     (case collect_files load fns rng of ((xs, r), rng') \<Rightarrow>
        (case feed B acc xs of (ys, a) \<Rightarrow> ((ys, outcome r a), rng')))"
proof (induction fns arbitrary: rng acc)
  case Nil
  show ?case by (simp add: outcome_def)
next
  case (Cons f fns)
  show ?case
    by (auto simp: Cons.IH examples_loop_feed feed_append outcome_def
             split: prod.splits sum.splits option.splits)
qed

lemma reader_body_feed:
  "reader_body load B fns rng =
     (case collect_files load fns rng of ((xs, r), rng') \<Rightarrow>
        (case feed B [] xs of (ys, a) \<Rightarrow>
           (case r of
              None \<Rightarrow> ((if a \<noteq> [] then ys @ [a] else ys, None), rng')
            | Some e \<Rightarrow> ((ys, Some e), rng'))))"
  by (auto simp: reader_body_def files_loop_feed outcome_def split: prod.splits option.splits)

lemma feed_concat: "feed B acc xs = (ys, a) \<Longrightarrow> concat ys @ a = acc @ xs"
  by (induction xs arbitrary: acc ys a) (auto simp: Let_def split: prod.splits if_splits)

lemma feed_sizes:
  "int (length acc) < B \<Longrightarrow> feed B acc xs = (ys, a) \<Longrightarrow>
     (\<forall>b\<in>set ys. int (length b) = B) \<and> int (length a) < B"
proof (induction xs arbitrary: acc ys a)
  case Nil
  then show ?case by simp
next
  case (Cons x xs)
  show ?case
  proof (cases "int (length (acc @ [x])) = B")
    case True
    obtain ys' a' where f: "feed B [] xs = (ys', a')" by (cases "feed B [] xs")
    have "0 < B" using True by auto
    then have "int (length ([]::'a list)) < B" by simp
    from Cons.IH[OF this f] Cons.prems(2) True f show ?thesis by (auto simp: Let_def)
  next
    case False
    then have "int (length (acc @ [x])) < B" using Cons.prems(1) by auto
    from Cons.IH[OF this] Cons.prems(2) False show ?thesis by (auto simp: Let_def)
  qed
qed

lemma feed_never: "B \<le> int (length acc) \<Longrightarrow> feed B acc xs = ([], acc @ xs)"
  by (induction xs arbitrary: acc) (auto simp: Let_def)

lemma np_slice_nonneg:
  "0 \<le> off \<Longrightarrow> 0 \<le> len \<Longrightarrow> np_slice a off (off + len) = take (nat len) (drop (nat off) a)"
  by (cases "off \<le> int (length a)")
     (auto simp: np_slice_def clamp_index_def Let_def min_def nat_diff_distrib nat_add_distrib)

lemma reshape_Inr:
  "reshape a d = Inr m \<Longrightarrow> 0 \<le> d \<Longrightarrow> m = NDArray (nat d, 1) a \<and> int (length a) = d"
  by (auto simp: reshape_def split: if_splits)

lemma reshape_Inl: "reshape a d = Inl e \<Longrightarrow> e = ValueError"
  by (auto simp: reshape_def split: if_splits)

lemma reshape_fits: "int (length a) = d \<Longrightarrow> reshape a d = Inr (NDArray (nat d, 1) a)"
  by (auto simp: reshape_def)

lemma length_arange: "0 \<le> len \<Longrightarrow> int (length (arange len)) = len"
  by (simp add: arange_def)

lemma slice_whole:
  assumes "reshape (np_slice a off (off + len)) len = Inr t" "0 \<le> len"
  shows "shape t = (nat len, 1) \<and> length (flat t) = nat len \<and>
         (0 \<le> off \<and> off \<le> int (length a) \<longrightarrow> off + len \<le> int (length a))"
proof -
  from reshape_Inr[OF assms] have t: "t = NDArray (nat len, 1) (np_slice a off (off + len))"
    and l: "int (length (np_slice a off (off + len))) = len" by auto
  have "off + len \<le> int (length a)" if "0 \<le> off" "off \<le> int (length a)"
    using l that assms(2) by (simp add: np_slice_nonneg)
  with t l show ?thesis by auto
qed

lemma cutsI:
  assumes "\<And>i off len e. ex i off len = Inl e \<Longrightarrow> e = ValueError"
    and "\<And>i off len x. ex i off len = Inr x \<Longrightarrow>
           \<exists>t p lab. x = (t, p, lab) \<and> reshape (np_slice a off (off + len)) len = Inr t \<and>
                     reshape (arange len) len = Inr p"
  shows "cuts (length a) ex"
  unfolding cuts_def
proof (intro allI)
  fix i off len
  show "case ex i off len of
          Inl e \<Rightarrow> e = ValueError
        | Inr x \<Rightarrow> 0 \<le> len \<longrightarrow> whole len x \<and>
            (0 \<le> off \<and> off \<le> int (length a) \<longrightarrow> off + len \<le> int (length a))"
  proof (cases "ex i off len")
    case (Inl e)
    with assms(1) show ?thesis by simp
  next
    case (Inr x)
    from assms(2)[OF Inr] obtain t p lab where x: "x = (t, p, lab)"
      and t: "reshape (np_slice a off (off + len)) len = Inr t"
      and p: "reshape (arange len) len = Inr p" by blast
    have "whole len x \<and> (0 \<le> off \<and> off \<le> int (length a) \<longrightarrow> off + len \<le> int (length a))"
      if l: "0 \<le> len"
    proof -
      from slice_whole[OF t l] have
        "shape t = (nat len, 1)" "length (flat t) = nat len"
        "0 \<le> off \<and> off \<le> int (length a) \<longrightarrow> off + len \<le> int (length a)" by simp_all
      moreover from reshape_Inr[OF p l] have "p = NDArray (nat len, 1) (map int [0..<nat len])"
        by (simp add: arange_def)
      ultimately show ?thesis using x by (simp add: whole_def)
    qed
    with Inr show ?thesis by simp
  qed
qed

lemma cuts_sequence_example: "cuts (length token_ids) (sequence_example token_ids labels)"
proof (rule cutsI)
  show "\<And>i off len e. sequence_example token_ids labels i off len = Inl e \<Longrightarrow> e = ValueError"
    by (simp add: sequence_example_def split: sum.splits) (blast dest: reshape_Inl)+
  show "\<And>i off len x. sequence_example token_ids labels i off len = Inr x \<Longrightarrow>
          \<exists>t p lab. x = (t, p, lab) \<and>
            reshape (np_slice token_ids off (off + len)) len = Inr t \<and>
            reshape (arange len) len = Inr p"
    by (auto simp: sequence_example_def split: sum.splits)
qed

lemma cuts_pretrain_example: "cuts (length token_ids) (pretrain_example token_ids labels)"
proof (rule cutsI)
  show "\<And>i off len e. pretrain_example token_ids labels i off len = Inl e \<Longrightarrow> e = ValueError"
    by (simp add: pretrain_example_def split: sum.splits) (blast dest: reshape_Inl)+
  show "\<And>i off len x. pretrain_example token_ids labels i off len = Inr x \<Longrightarrow>
          \<exists>t p lab. x = (t, p, lab) \<and>
            reshape (np_slice token_ids off (off + len)) len = Inr t \<and>
            reshape (arange len) len = Inr p"
    by (auto simp: pretrain_example_def split: sum.splits)
qed

lemma cuts_normal_example: "cuts (length token_ids) (normal_example token_ids labels)"
proof (rule cutsI)
  show "\<And>i off len e. normal_example token_ids labels i off len = Inl e \<Longrightarrow> e = ValueError"
    by (simp add: normal_example_def split: sum.splits) (blast dest: reshape_Inl)+
  show "\<And>i off len x. normal_example token_ids labels i off len = Inr x \<Longrightarrow>
          \<exists>t p lab. x = (t, p, lab) \<and>
            reshape (np_slice token_ids off (off + len)) len = Inr t \<and>
            reshape (arange len) len = Inr p"
    by (auto simp: normal_example_def split: sum.splits)
qed

lemma cuts_Inl: "cuts n ex \<Longrightarrow> ex i off len = Inl e \<Longrightarrow> e = ValueError"
  unfolding cuts_def by (drule spec[of _ i], drule spec[of _ off], drule spec[of _ len]) simp

lemma cuts_Inr:
  "cuts n ex \<Longrightarrow> ex i off len = Inr x \<Longrightarrow> 0 \<le> len \<Longrightarrow>
     whole len x \<and> (0 \<le> off \<and> off \<le> int n \<longrightarrow> off + len \<le> int n)"
  unfolding cuts_def by (drule spec[of _ i], drule spec[of _ off], drule spec[of _ len]) simp

lemma collect_cuts:
  assumes "cuts n ex"
  shows "non_negative ls \<Longrightarrow> 0 \<le> off \<Longrightarrow> off \<le> int n \<Longrightarrow> collect ex ls i off = (xs, r) \<Longrightarrow>
     (r = None \<or> r = Some ValueError) \<and> list_all2 whole (take (length xs) ls) xs \<and>
     (r = None \<longrightarrow> off + sum_list ls \<le> int n \<and> length xs = length ls)"
proof (induction ls arbitrary: i off xs r)
  case Nil
  then show ?case by simp
next
  case (Cons l ls)
  have l0: "0 \<le> l" and nn: "non_negative ls" using Cons.prems(1) by (auto simp: non_negative_def)
  show ?case
  proof (cases "ex i off l")
    case (Inl e)
    with assms have "e = ValueError" by (rule cuts_Inl)
    with Inl Cons.prems(4) show ?thesis by auto
  next
    case (Inr x)
    from cuts_Inr[OF assms Inr l0] Cons.prems(2,3) have w: "whole l x" and fit: "off + l \<le> int n"
      by simp_all
    obtain xs' r' where c: "collect ex ls (Suc i) (off + l) = (xs', r')"
      by (cases "collect ex ls (Suc i) (off + l)")
    have "0 \<le> off + l" using l0 Cons.prems(2) by simp
    from Cons.IH[OF nn this fit c] Inr c Cons.prems(4) w show ?thesis
      by (auto simp: add.assoc)
  qed
qed

lemma collect_files_cuts:
  "\<forall>f\<in>set fns. decodes load size_of lengths_of f \<and> non_negative (lengths_of f) \<Longrightarrow>
   collect_files load fns rng = ((xs, r), rng') \<Longrightarrow>
     (r = None \<or> r = Some ValueError) \<and>
     list_all2 whole (take (length xs) (concat (map lengths_of fns))) xs \<and>
     (r = None \<longrightarrow> (\<forall>f\<in>set fns. sum_list (lengths_of f) \<le> int (size_of f)) \<and>
                     length xs = length (concat (map lengths_of fns)))"
proof (induction fns arbitrary: rng xs r rng')
  case Nil
  then show ?case by simp
next
  case (Cons f fns)
  from Cons.prems(1) obtain ex rng1 where
    ld: "load rng f = (Inr (ex, lengths_of f), rng1)" and cu: "cuts (size_of f) ex"
    and nn: "non_negative (lengths_of f)"
    unfolding decodes_def by (fastforce dest: spec[of _ rng])
  obtain xs1 r1 where c: "collect ex (lengths_of f) 0 0 = (xs1, r1)"
    by (cases "collect ex (lengths_of f) 0 0")
  from collect_cuts[OF cu nn _ _ c]
  have r1: "r1 = None \<or> r1 = Some ValueError"
    and w1: "list_all2 whole (take (length xs1) (lengths_of f)) xs1"
    and ok1: "r1 = None \<longrightarrow> sum_list (lengths_of f) \<le> int (size_of f) \<and> length xs1 = length (lengths_of f)"
    by auto
  show ?case
  proof (cases r1)
    case (Some e)
    from w1 have "length xs1 \<le> length (lengths_of f)"
      by (auto dest: list_all2_lengthD)
    with Some ld c Cons.prems(2) r1 w1 show ?thesis
      by auto
  next
    case None
    obtain xs2 r2 rng2 where cf: "collect_files load fns rng1 = ((xs2, r2), rng2)"
      by (metis prod.exhaust)
    have "\<forall>f\<in>set fns. decodes load size_of lengths_of f \<and> non_negative (lengths_of f)"
      using Cons.prems(1) by simp
    from Cons.IH[OF this cf] have
      r2: "r2 = None \<or> r2 = Some ValueError"
      and w2: "list_all2 whole (take (length xs2) (concat (map lengths_of fns))) xs2"
      and ok2: "r2 = None \<longrightarrow> (\<forall>f\<in>set fns. sum_list (lengths_of f) \<le> int (size_of f)) \<and>
                     length xs2 = length (concat (map lengths_of fns))"
      by auto
    from None ok1 have len1: "length xs1 = length (lengths_of f)"
      and s1: "sum_list (lengths_of f) \<le> int (size_of f)" by auto
    from ld c None cf Cons.prems(2) have xs: "xs = xs1 @ xs2" and r: "r = r2" by auto
    have "list_all2 whole (take (length xs) (concat (map lengths_of (f # fns)))) xs"
      using w1 w2 len1 xs by (simp add: list_all2_appendI)
    with r2 ok2 r s1 len1 xs show ?thesis by auto
  qed
qed

lemma non_negative_sum: "non_negative ls \<Longrightarrow> 0 \<le> sum_list ls"
  by (induction ls) (auto simp: non_negative_def)

lemma non_negative_append [simp]:
  "non_negative (xs @ ys) \<longleftrightarrow> non_negative xs \<and> non_negative ys"
  by (simp add: non_negative_def)

lemma non_negative_Cons [simp]:
  "non_negative (x # xs) \<longleftrightarrow> 0 \<le> x \<and> non_negative xs"
  by (simp add: non_negative_def)

lemma non_negative_Nil [simp]: "non_negative []"
  by (simp add: non_negative_def)

lemma reshape_slice:
  "0 \<le> off \<Longrightarrow> 0 \<le> len \<Longrightarrow> off + len \<le> int (length a) \<Longrightarrow>
     reshape (np_slice a off (off + len)) len = Inr (NDArray (nat len, 1) (take (nat len) (drop (nat off) a)))"
  by (simp add: reshape_def np_slice_nonneg)

lemma reshape_arange:
  "0 \<le> len \<Longrightarrow> reshape (arange len) len = Inr (NDArray (nat len, 1) (map int [0..<nat len]))"
  using reshape_fits[of "arange len" len] by (simp add: arange_def)

lemma take_one_drop: "i < length a \<Longrightarrow> take (Suc 0) (drop i a) = [a ! i]"
  by (simp add: take_Suc_conv_app_nth)

lemma reshape_scalar:
  "i < length a \<Longrightarrow> reshape (np_slice a (int i) (int i + 1)) 1 = Inr (NDArray (1, 1) [a ! i])"
proof -
  assume i: "i < length a"
  have "np_slice a (int i) (int i + 1) = take (nat 1) (drop (nat (int i)) a)"
    by (rule np_slice_nonneg) simp_all
  also have "\<dots> = [a ! i]" using i by (simp add: take_one_drop)
  finally show ?thesis by (simp add: reshape_def)
qed

lemma sequence_example_ok:
  "0 \<le> off \<Longrightarrow> 0 \<le> len \<Longrightarrow> off + len \<le> int (length token_ids) \<Longrightarrow>
   off + len \<le> int (length labels) \<Longrightarrow>
     sequence_example token_ids labels i off len =
       Inr (NDArray (nat len, 1) (take (nat len) (drop (nat off) token_ids)),
            NDArray (nat len, 1) (map int [0..<nat len]),
            NDArray (nat len, 1) (take (nat len) (drop (nat off) labels)))"
  by (simp add: sequence_example_def reshape_slice reshape_arange)

lemma pretrain_example_eq: "pretrain_example = sequence_example"
  by (intro ext) (simp add: pretrain_example_def sequence_example_def)

lemma normal_example_ok:
  "0 \<le> off \<Longrightarrow> 0 \<le> len \<Longrightarrow> off + len \<le> int (length token_ids) \<Longrightarrow> i < length labels \<Longrightarrow>
     normal_example token_ids labels i off len =
       Inr (NDArray (nat len, 1) (take (nat len) (drop (nat off) token_ids)),
            NDArray (nat len, 1) (map int [0..<nat len]),
            NDArray (1, 1) [labels ! i])"
  by (simp add: normal_example_def reshape_slice reshape_arange reshape_scalar take_one_drop)

lemma collect_sequence_example:
  "non_negative (pre @ ls) \<Longrightarrow> sum_list (pre @ ls) \<le> int (length token_ids) \<Longrightarrow>
   sum_list (pre @ ls) \<le> int (length labels) \<Longrightarrow>
     collect (sequence_example token_ids labels) ls (length pre) (sum_list pre) =
       (map (\<lambda>j. token_example token_ids labels (pre @ ls) (length pre + j)) [0..<length ls], None)"
proof (induction ls arbitrary: pre)
  case Nil
  show ?case by simp
next
  case (Cons l ls)
  have l0: "0 \<le> l" and p0: "0 \<le> sum_list pre" and s0: "0 \<le> sum_list ls"
    using Cons.prems(1) by (auto intro: non_negative_sum)
  have hd: "sequence_example token_ids labels (length pre) (sum_list pre) l =
              Inr (token_example token_ids labels (pre @ l # ls) (length pre))"
    unfolding token_example_def Let_def
    using Cons.prems(2,3) l0 p0 s0 by (simp add: sequence_example_ok)
  have "collect (sequence_example token_ids labels) ls (length (pre @ [l])) (sum_list (pre @ [l])) =
       (map (\<lambda>j. token_example token_ids labels ((pre @ [l]) @ ls) (length (pre @ [l]) + j))
          [0..<length ls], None)"
    using Cons.prems by (intro Cons.IH) simp_all
  then show ?case using hd by (simp add: map_upt_Suc del: upt_Suc)
qed

lemma collect_normal_example:
  "non_negative (pre @ ls) \<Longrightarrow> sum_list (pre @ ls) \<le> int (length token_ids) \<Longrightarrow>
   length (pre @ ls) \<le> length labels \<Longrightarrow>
     collect (normal_example token_ids labels) ls (length pre) (sum_list pre) =
       (map (\<lambda>j. scalar_example token_ids labels (pre @ ls) (length pre + j)) [0..<length ls], None)"
proof (induction ls arbitrary: pre)
  case Nil
  show ?case by simp
next
  case (Cons l ls)
  have l0: "0 \<le> l" and p0: "0 \<le> sum_list pre" and s0: "0 \<le> sum_list ls"
    using Cons.prems(1) by (auto intro: non_negative_sum)
  have hd: "normal_example token_ids labels (length pre) (sum_list pre) l =
              Inr (scalar_example token_ids labels (pre @ l # ls) (length pre))"
    unfolding scalar_example_def Let_def
    using Cons.prems(2,3) l0 p0 s0 by (simp add: normal_example_ok)
  have "collect (normal_example token_ids labels) ls (length (pre @ [l])) (sum_list (pre @ [l])) =
       (map (\<lambda>j. scalar_example token_ids labels ((pre @ [l]) @ ls) (length (pre @ [l]) + j))
          [0..<length ls], None)"
    using Cons.prems by (intro Cons.IH) simp_all
  then show ?case using hd by (simp add: map_upt_Suc del: upt_Suc)
qed

lemma reader_body_ok:
  "collect_files load fns rng = ((xs, None), rng') \<Longrightarrow>
     reader_body load B fns rng = ((batches B xs, None), rng')"
  by (simp add: reader_body_feed batches_def split: prod.splits)

lemma reader_body_prefix:
  assumes "collect_files load fns rng = ((xs, r), rng')"
  shows "snd (fst (reader_body load B fns rng)) = r \<and>
         prefix (concat (fst (fst (reader_body load B fns rng)))) xs \<and>
         (r = None \<longrightarrow> concat (fst (fst (reader_body load B fns rng))) = xs)"
proof -
  obtain ys a where f: "feed B [] xs = (ys, a)" by (cases "feed B [] xs")
  from feed_concat[OF f] have c: "concat ys @ a = xs" by simp
  then have "prefix (concat ys) xs" by (metis prefixI)
  with assms f c show ?thesis
    by (cases r) (auto simp: reader_body_feed)
qed

lemma concat_batches: "concat (batches B xs) = xs"
proof -
  obtain ys a where f: "feed B [] xs = (ys, a)" by (cases "feed B [] xs")
  from feed_concat[OF f] show ?thesis using f by (auto simp: batches_def)
qed

lemma batches_never: "B \<le> 0 \<Longrightarrow> batches B xs = (if xs = [] then [] else [xs])"
  using feed_never[of B "[]" xs] by (simp add: batches_def)

lemma length_concat_uniform:
  "\<forall>b\<in>set ys. length b = n \<Longrightarrow> length (concat ys) = length ys * n"
  by (induction ys) auto

lemma feed_count:
  assumes "1 \<le> B" "feed B [] xs = (ys, a)"
  shows "length ys = length xs div nat B \<and> length a = length xs mod nat B \<and>
         (\<forall>b\<in>set ys. length b = nat B)"
proof -
  have "int (length ([]::'a list)) < B" using assms(1) by simp
  from feed_sizes[OF this assms(2)] have
    sz: "\<forall>b\<in>set ys. length b = nat B" and a: "length a < nat B" by auto
  from feed_concat[OF assms(2)] have "length xs = length (concat ys) + length a"
    by (metis append_Nil length_append)
  with length_concat_uniform[OF sz] have n: "length xs = length ys * nat B + length a" by simp
  from n a have "length xs div nat B = length ys" by simp
  moreover from n a have "length xs mod nat B = length a" by simp
  ultimately show ?thesis using sz by simp
qed

lemma batches_count:
  assumes "1 \<le> B"
  shows "int (length (batches B xs)) = \<lceil>real (length xs) / real_of_int B\<rceil>"
    and "\<forall>k < length xs div nat B. length (batches B xs ! k) = nat B"
    and "length xs mod nat B \<noteq> 0 \<longrightarrow>
           length (batches B xs) = Suc (length xs div nat B) \<and>
           length (last (batches B xs)) = length xs mod nat B"
    and "length xs mod nat B = 0 \<longrightarrow> length (batches B xs) = length xs div nat B"
proof -
  obtain ys a where f: "feed B [] xs = (ys, a)" by (cases "feed B [] xs")
  from feed_count[OF assms f] have
    q: "length ys = length xs div nat B" and r: "length a = length xs mod nat B"
    and sz: "\<forall>b\<in>set ys. length b = nat B" by auto
  have ae: "a = [] \<longleftrightarrow> length xs mod nat B = 0" using r by (metis length_0_conv)
  have bs: "batches B xs = (if length xs mod nat B \<noteq> 0 then ys @ [a] else ys)"
    using f ae by (simp add: batches_def)
  show "\<forall>k < length xs div nat B. length (batches B xs ! k) = nat B"
    using bs q sz by (auto simp: nth_append)
  show "length xs mod nat B \<noteq> 0 \<longrightarrow>
           length (batches B xs) = Suc (length xs div nat B) \<and>
           length (last (batches B xs)) = length xs mod nat B"
    using bs q r by auto
  show e: "length xs mod nat B = 0 \<longrightarrow> length (batches B xs) = length xs div nat B"
    using bs q r by auto
  have len: "length (batches B xs) = length xs div nat B + (if length xs mod nat B = 0 then 0 else 1)"
    using bs q r by auto
  have B: "int (nat B) = B" using assms by simp
  have "\<lceil>real (length xs) / real_of_int B\<rceil> = \<lceil>real_of_int (int (length xs)) / real_of_int B\<rceil>"
    by simp
  also have "\<dots> = - (- int (length xs) div B)" by (rule ceiling_divide_eq_div)
  also have "\<dots> = int (length xs div nat B + (if length xs mod nat B = 0 then 0 else 1))"
  proof -
    define q r where "q = length xs div nat B" and "r = length xs mod nat B"
    have "length xs = q * nat B + r" unfolding q_def r_def by simp
    then have "int (length xs) = int q * int (nat B) + int r"
      by (simp only: of_nat_add of_nat_mult)
    then have n: "int (length xs) = int q * B + int r" using B by simp
    have "r < nat B" unfolding r_def using assms by (intro mod_less_divisor) simp
    then have rb: "int r < B" using B by linarith
    have B0: "B \<noteq> 0" using assms by simp
    show ?thesis
    proof (cases "r = 0")
      case True
      then have "- int (length xs) = (- int q) * B" using n by simp
      then have "- int (length xs) div B = - int q"
        using nonzero_mult_div_cancel_right[OF B0, of "- int q"] by (simp only:)
      with True show ?thesis unfolding q_def r_def by simp
    next
      case False
      then have "- int (length xs) = (- int q - 1) * B + (B - int r)"
        using n by (simp add: algebra_simps)
      then have "- int (length xs) div B = (- int q - 1) + (B - int r) div B"
        using div_mult_self3[OF B0, of "- int q - 1" "B - int r"] by (simp only:)
      moreover have "(B - int r) div B = 0"
        using rb False by (intro div_pos_pos_trivial) simp_all
      ultimately have "- int (length xs) div B = - int q - 1" by simp
      with False show ?thesis unfolding q_def r_def by simp
    qed
  qed
  finally show "int (length (batches B xs)) = \<lceil>real (length xs) / real_of_int B\<rceil>"
    using len by simp
qed

lemma sequence_load_fields:
  "has_fields env [''token_ids'', label_name, ''lengths''] f \<Longrightarrow>
     sequence_load env label_name rng f =
       (Inr (sequence_example (archive_field env f ''token_ids'') (archive_field env f label_name),
             archive_field env f ''lengths''), rng)"
  by (auto simp: has_fields_def sequence_load_def np_load_def getitem_def archive_field_def
           split: option.splits)

lemma normal_load_fields:
  "has_fields env [''token_ids'', label_name, ''lengths''] f \<Longrightarrow>
     normal_load env label_name rng f =
       (Inr (normal_example (archive_field env f ''token_ids'') (archive_field env f label_name),
             archive_field env f ''lengths''), rng)"
  by (auto simp: has_fields_def normal_load_def np_load_def getitem_def archive_field_def
           split: option.splits)

lemma pretrain_load_fields:
  "has_fields env [''token_ids'', ''lengths''] f \<Longrightarrow>
     pretrain_load apply_bert_mask env rng f =
       (case apply_bert_mask rng (archive_field env f ''token_ids'') of
          ((masked_token_ids, labels), rng') \<Rightarrow>
            (Inr (pretrain_example masked_token_ids labels, archive_field env f ''lengths''), rng'))"
  by (auto simp: has_fields_def pretrain_load_def np_load_def getitem_def archive_field_def
           split: option.splits prod.splits)

lemma collect_files_sequence:
  "\<forall>f\<in>set fns. sequence_well_formed env label_name f \<Longrightarrow>
     collect_files (sequence_load env label_name) fns rng =
       ((concat (map (sequence_examples env label_name) fns), None), rng)"
proof (induction fns)
  case Nil
  show ?case by simp
next
  case (Cons f fns)
  from Cons.prems have wf: "sequence_well_formed env label_name f" by simp
  have "collect (sequence_example (archive_field env f ''token_ids'') (archive_field env f label_name))
          (archive_field env f ''lengths'') (length ([]::int list)) (sum_list []) =
        (map (\<lambda>j. token_example (archive_field env f ''token_ids'') (archive_field env f label_name)
                     ([] @ archive_field env f ''lengths'') (length ([]::int list) + j))
           [0..<length (archive_field env f ''lengths'')], None)"
    using wf by (intro collect_sequence_example) (simp_all add: sequence_well_formed_def)
  then have c: "collect (sequence_example (archive_field env f ''token_ids'') (archive_field env f label_name))
          (archive_field env f ''lengths'') 0 0 = (sequence_examples env label_name f, None)"
    by (simp add: sequence_examples_def Let_def)
  from wf have hf: "has_fields env [''token_ids'', label_name, ''lengths''] f"
    by (simp add: sequence_well_formed_def)
  from Cons show ?case by (simp add: sequence_load_fields[OF hf] c)
qed

lemma collect_files_normal:
  "\<forall>f\<in>set fns. normal_well_formed env label_name f \<Longrightarrow>
     collect_files (normal_load env label_name) fns rng =
       ((concat (map (normal_examples env label_name) fns), None), rng)"
proof (induction fns)
  case Nil
  show ?case by simp
next
  case (Cons f fns)
  from Cons.prems have wf: "normal_well_formed env label_name f" by simp
  have "collect (normal_example (archive_field env f ''token_ids'') (archive_field env f label_name))
          (archive_field env f ''lengths'') (length ([]::int list)) (sum_list []) =
        (map (\<lambda>j. scalar_example (archive_field env f ''token_ids'') (archive_field env f label_name)
                     ([] @ archive_field env f ''lengths'') (length ([]::int list) + j))
           [0..<length (archive_field env f ''lengths'')], None)"
    using wf by (intro collect_normal_example) (simp_all add: normal_well_formed_def)
  then have c: "collect (normal_example (archive_field env f ''token_ids'') (archive_field env f label_name))
          (archive_field env f ''lengths'') 0 0 = (normal_examples env label_name f, None)"
    by (simp add: normal_examples_def Let_def)
  from wf have hf: "has_fields env [''token_ids'', label_name, ''lengths''] f"
    by (simp add: normal_well_formed_def)
  from Cons show ?case by (simp add: normal_load_fields[OF hf] c)
qed

lemma collect_files_pretrain:
  assumes "keeps_length apply_bert_mask"
  shows "\<forall>f\<in>set fns. pretrain_well_formed env f \<Longrightarrow>
     fst (collect_files (pretrain_load apply_bert_mask env) fns rng) =
       (pretrain_examples apply_bert_mask env fns rng, None)"
proof (induction fns arbitrary: rng)
  case Nil
  show ?case by simp
next
  case (Cons f fns)
  from Cons.prems have wf: "pretrain_well_formed env f" by simp
  obtain m labs rng1 where mk: "apply_bert_mask rng (archive_field env f ''token_ids'') = ((m, labs), rng1)"
    by (metis prod.exhaust)
  from assms mk have lm: "length m = length (archive_field env f ''token_ids'')"
    and ll: "length labs = length (archive_field env f ''token_ids'')"
    unfolding keeps_length_def by (metis fst_conv, metis fst_conv snd_conv)
  have "collect (sequence_example m labs)
          (archive_field env f ''lengths'') (length ([]::int list)) (sum_list []) =
        (map (\<lambda>j. token_example m labs ([] @ archive_field env f ''lengths'') (length ([]::int list) + j))
           [0..<length (archive_field env f ''lengths'')], None)"
    using wf lm ll by (intro collect_sequence_example) (simp_all add: pretrain_well_formed_def)
  then have c: "collect (pretrain_example m labs) (archive_field env f ''lengths'') 0 0 =
      (map (token_example m labs (archive_field env f ''lengths''))
         [0..<length (archive_field env f ''lengths'')], None)"
    by (simp add: pretrain_example_eq)
  from wf have "has_fields env [''token_ids'', ''lengths''] f"
    by (simp add: pretrain_well_formed_def)
  from pretrain_load_fields[OF this, of apply_bert_mask rng] mk
  have ld: "pretrain_load apply_bert_mask env rng f =
      (Inr (pretrain_example m labs, archive_field env f ''lengths''), rng1)" by simp
  obtain xs2 r2 rng2 where
    cf: "collect_files (pretrain_load apply_bert_mask env) fns rng1 = ((xs2, r2), rng2)"
    by (metis prod.exhaust)
  from Cons.IH[of rng1] Cons.prems cf
  have "xs2 = pretrain_examples apply_bert_mask env fns rng1" "r2 = None" by simp_all
  with ld mk c cf show ?case by (simp add: Let_def)
qed

lemma length_sequence_examples:
  "length (concat (map (sequence_examples env label_name) fns)) = example_count env fns"
  by (induction fns) (simp_all add: example_count_def all_lengths_def sequence_examples_def Let_def)

lemma length_normal_examples:
  "length (concat (map (normal_examples env label_name) fns)) = example_count env fns"
  by (induction fns) (simp_all add: example_count_def all_lengths_def normal_examples_def Let_def)

lemma length_pretrain_examples:
  "length (pretrain_examples apply_bert_mask env fns rng) = example_count env fns"
  by (induction fns arbitrary: rng)
     (simp_all add: example_count_def all_lengths_def Let_def split: prod.splits)

lemma sequence_pass:
  "\<forall>f\<in>set fns. sequence_well_formed env label_name f \<Longrightarrow>
     sequence_sample_reader fns B label_name env rng =
       ((batches B (concat (map (sequence_examples env label_name) fns)), None), rng)"
  unfolding sequence_sample_reader_def
  by (rule reader_body_ok) (rule collect_files_sequence)

lemma normal_pass:
  "\<forall>f\<in>set fns. normal_well_formed env label_name f \<Longrightarrow>
     normal_sample_reader fns B label_name env rng =
       ((batches B (concat (map (normal_examples env label_name) fns)), None), rng)"
  unfolding normal_sample_reader_def
  by (rule reader_body_ok) (rule collect_files_normal)

lemma pretrain_pass:
  assumes "keeps_length apply_bert_mask" "\<forall>f\<in>set fns. pretrain_well_formed env f"
  shows "fst (pretrain_sample_reader apply_bert_mask fns B env rng) =
       (batches B (pretrain_examples apply_bert_mask env fns rng), None)"
proof -
  obtain rng' where
    "collect_files (pretrain_load apply_bert_mask env) fns rng =
       ((pretrain_examples apply_bert_mask env fns rng, None), rng')"
    using collect_files_pretrain[OF assms, of rng] by (metis fst_conv prod.exhaust)
  from reader_body_ok[OF this] show ?thesis by (simp add: pretrain_sample_reader_def)
qed

lemma exact_batching_batches:
  assumes "1 \<le> B" "length xs = N"
  shows "exact_batching B N (batches B xs)"
  using batches_count[OF assms(1), of xs] assms(2) unfolding exact_batching_def by auto

lemma keeps_length_demo_mask: "keeps_length demo_mask"
  by (simp add: keeps_length_def demo_mask_def Let_def)

lemma decodes_sequence_load:
  "has_fields env [''token_ids'', label_name, ''lengths''] f \<Longrightarrow>
     decodes (sequence_load env label_name) (\<lambda>f. length (archive_field env f ''token_ids''))
       (\<lambda>f. archive_field env f ''lengths'') f"
  unfolding decodes_def by (simp add: sequence_load_fields cuts_sequence_example)

lemma decodes_normal_load:
  "has_fields env [''token_ids'', label_name, ''lengths''] f \<Longrightarrow>
     decodes (normal_load env label_name) (\<lambda>f. length (archive_field env f ''token_ids''))
       (\<lambda>f. archive_field env f ''lengths'') f"
  unfolding decodes_def by (simp add: normal_load_fields cuts_normal_example)

lemma decodes_pretrain_load:
  assumes "keeps_length apply_bert_mask" "has_fields env [''token_ids'', ''lengths''] f"
  shows "decodes (pretrain_load apply_bert_mask env) (\<lambda>f. length (archive_field env f ''token_ids''))
       (\<lambda>f. archive_field env f ''lengths'') f"
  unfolding decodes_def
proof (intro allI)
  fix rng
  obtain m labs rng1 where mk: "apply_bert_mask rng (archive_field env f ''token_ids'') = ((m, labs), rng1)"
    by (metis prod.exhaust)
  from assms(1) have "length (fst (fst (apply_bert_mask rng (archive_field env f ''token_ids'')))) =
      length (archive_field env f ''token_ids'')"
    unfolding keeps_length_def by blast
  with mk have lm: "length m = length (archive_field env f ''token_ids'')" by simp
  have "cuts (length m) (pretrain_example m labs)" by (rule cuts_pretrain_example)
  with lm mk pretrain_load_fields[OF assms(2), of apply_bert_mask rng]
  show "\<exists>ex rng'. pretrain_load apply_bert_mask env rng f = (Inr (ex, archive_field env f ''lengths''), rng') \<and>
         cuts (length (archive_field env f ''token_ids'')) ex"
    by simp
qed

lemma whole_counts:
  "list_all2 whole ls xs \<Longrightarrow> non_negative ls \<Longrightarrow> map (\<lambda>x. int (length (flat (fst x)))) xs = ls"
  by (induction rule: list_all2_induct) (auto simp: whole_def non_negative_def)

lemma non_negative_concat:
  "\<forall>f\<in>set fns. non_negative (lengths_of f) \<Longrightarrow> non_negative (concat (map lengths_of fns))"
  by (induction fns) (auto simp: non_negative_def)

lemma non_negative_take: "non_negative ls \<Longrightarrow> non_negative (take k ls)"
  unfolding non_negative_def list_all_iff by (auto dest: in_set_takeD)

lemma reader_body_whole:
  assumes "\<forall>f\<in>set fns. decodes load size_of lengths_of f \<and> non_negative (lengths_of f)"
  shows "(snd (fst (reader_body load B fns rng)) = None \<or>
          snd (fst (reader_body load B fns rng)) = Some ValueError) \<and>
         list_all2 whole
           (take (length (concat (fst (fst (reader_body load B fns rng)))))
              (concat (map lengths_of fns)))
           (concat (fst (fst (reader_body load B fns rng)))) \<and>
         (snd (fst (reader_body load B fns rng)) = None \<longrightarrow>
            (\<forall>f\<in>set fns. sum_list (lengths_of f) \<le> int (size_of f)))"
proof -
  obtain xs r rng' where cf: "collect_files load fns rng = ((xs, r), rng')"
    by (metis prod.exhaust)
  define ys where "ys = concat (fst (fst (reader_body load B fns rng)))"
  from reader_body_prefix[OF cf, of B] have
    r: "snd (fst (reader_body load B fns rng)) = r" and p: "prefix ys xs"
    unfolding ys_def by auto
  from collect_files_cuts[OF assms cf] have
    rv: "r = None \<or> r = Some ValueError"
    and w: "list_all2 whole (take (length xs) (concat (map lengths_of fns))) xs"
    and ok: "r = None \<longrightarrow> (\<forall>f\<in>set fns. sum_list (lengths_of f) \<le> int (size_of f))"
    by auto
  from p have ys: "ys = take (length ys) xs" and le: "length ys \<le> length xs"
    by (auto simp: prefix_def)
  from w have "list_all2 whole (take (length ys) (take (length xs) (concat (map lengths_of fns))))
                 (take (length ys) xs)"
    by (rule list_all2_takeI)
  with ys le have "list_all2 whole (take (length ys) (concat (map lengths_of fns))) ys"
    by (simp add: min_absorb1)
  with r rv ok show ?thesis unfolding ys_def by simp
qed

lemma gen_batch_loop_ok:
  "\<forall>e\<in>set examples. tokenizes tok e \<Longrightarrow>
     gen_batch_loop tok examples (token_ids, pos, lods) =
       Inr (token_ids @ concat (token_lists tok examples),
            pos @ concat (map (\<lambda>ids. map int [0..<length ids]) (token_lists tok examples)),
            lods @ map (\<lambda>k. length token_ids +
                            sum_list (take (Suc k) (map length (token_lists tok examples))))
                     [0..<length examples])"
proof (induction examples arbitrary: token_ids pos lods)
  case Nil
  show ?case by (simp add: token_lists_def)
next
  case (Cons e es)
  from Cons.prems obtain ids where ids: "tok e = Inr ids"
    by (auto simp: tokenizes_def split: sum.splits)
  have tl: "token_lists tok (e # es) = ids # token_lists tok es"
    using ids by (simp add: token_lists_def)
  have "\<forall>e\<in>set es. tokenizes tok e" using Cons.prems by simp
  from Cons.IH[OF this, of "token_ids @ ids" "pos @ arange (int (length ids))"
                 "lods @ [length (token_ids @ ids)]"]
  show ?case using ids tl
    by (simp add: Let_def arange_def map_upt_Suc add.assoc del: upt_Suc)
qed

lemma int64_array_ok:
  "list_all (\<lambda>x. - (2 ^ 63) \<le> x \<and> x < 2 ^ 63) xs \<Longrightarrow> int64_array xs = Inr xs"
  by (simp add: int64_array_def)

lemma tokenizes_concat:
  "\<forall>e\<in>set examples. tokenizes tok e \<Longrightarrow>
     list_all (\<lambda>x. - (2 ^ 63) \<le> x \<and> x < 2 ^ 63) (concat (token_lists tok examples))"
  by (induction examples) (auto simp: tokenizes_def token_lists_def split: sum.splits)

lemma length_token_lists: "length (token_lists tok examples) = length examples"
  by (simp add: token_lists_def)

lemma lod_offsets_shift:
  "0 # map (\<lambda>k. sum_list (take (Suc k) lens)) [0..<length lens] = lod_offsets lens"
  unfolding lod_offsets_def by (simp add: map_upt_Suc del: upt_Suc)

lemma nth_concat_map:
  assumes "k < length fns" "i < length (E (fns ! k))"
  shows "concat (map E fns) ! (length (concat (map E (take k fns))) + i) = E (fns ! k) ! i"
proof -
  have "fns = take k fns @ fns ! k # drop (Suc k) fns"
    using assms(1) by (rule id_take_nth_drop)
  then have "concat (map E fns) =
      concat (map E (take k fns)) @ E (fns ! k) @ concat (map E (drop (Suc k) fns))"
    by (metis concat.simps(2) concat_append list.simps(9) map_append)
  then show ?thesis using assms(2) by (simp add: nth_append)
qed












lemma sorted_lod_offsets: "sorted (lod_offsets lens)"
proof -
  have "sum_list (take i lens) \<le> sum_list (take j lens)" if "i \<le> j" for i j
  proof -
    have "take j lens = take i lens @ take (j - i) (drop i lens)"
      using that by (metis le_add_diff_inverse take_add)
    then show ?thesis by simp
  qed
  then show ?thesis
    unfolding lod_offsets_def by (simp add: sorted_iff_nth_mono del: upt_Suc)
qed

lemma lod_offsets_props:
  "length (lod_offsets lens) = Suc (length lens)"
  "hd (lod_offsets lens) = 0"
  "last (lod_offsets lens) = sum_list lens"
proof -
  show "length (lod_offsets lens) = Suc (length lens)" by (simp add: lod_offsets_def)
  show "hd (lod_offsets lens) = 0"
    unfolding lod_offsets_def by (simp add: upt_conv_Cons del: upt_Suc)
  show "last (lod_offsets lens) = sum_list lens"
    unfolding lod_offsets_def by simp
qed

lemma check_lod_offsets:
  "lens \<noteq> [] \<Longrightarrow> check_lod [lod_offsets lens] (sum_list lens)"
  by (cases lens) (simp_all add: check_lod_def lod_offsets_props sorted_lod_offsets)

lemma sum_list_map_length: "sum_list (map length xss) = length (concat xss)"
  by (induction xss) simp_all

lemma well_formed_fields:
  "pretrain_well_formed env f \<Longrightarrow>
     has_fields env [''token_ids'', ''lengths''] f \<and> non_negative (archive_field env f ''lengths'')"
  "sequence_well_formed env label_name f \<Longrightarrow>
     has_fields env [''token_ids'', label_name, ''lengths''] f \<and>
     non_negative (archive_field env f ''lengths'')"
  "normal_well_formed env label_name f \<Longrightarrow>
     has_fields env [''token_ids'', label_name, ''lengths''] f \<and>
     non_negative (archive_field env f ''lengths'')"
  by (simp_all add: pretrain_well_formed_def sequence_well_formed_def normal_well_formed_def)

lemma length_all_lengths: "length (all_lengths env fns) = example_count env fns"
  by (simp add: example_count_def)



lemma step_files_keeps:
  "gen_load (snd (fst (step_files g fns rng acc))) = gen_load g \<and>
   gen_batch_size (snd (fst (step_files g fns rng acc))) = gen_batch_size g"
  by (induction fns arbitrary: rng acc)
     (auto split: prod.splits sum.splits loop_result.splits)

lemma next_batch_keeps:
  "gen_load (snd (fst (next_batch g rng))) = gen_load g \<and>
   gen_batch_size (snd (fst (next_batch g rng))) = gen_batch_size g"
  using step_files_keeps[of g]
  by (auto simp: next_batch_def Let_def split: control.splits loop_result.splits)






lemma step_files_blind:
  assumes "\<forall>r r' f. fst (gen_load g r f) = fst (gen_load g r' f)"
  shows "fst (step_files g fns rng acc) = fst (step_files g fns rng' acc)"
proof (induction fns arbitrary: rng rng' acc)
  case Nil
  show ?case by simp
next
  case (Cons f fns)
  obtain a r1 where l1: "gen_load g rng f = (a, r1)" by (cases "gen_load g rng f")
  obtain a' r1' where l2: "gen_load g rng' f = (a', r1')" by (cases "gen_load g rng' f")
  from assms have "fst (gen_load g rng f) = fst (gen_load g rng' f)" by blast
  with l1 l2 have a: "a' = a" by simp
  show ?case
  proof (cases a)
    case (Inl e)
    with l1 l2 a show ?thesis by simp
  next
    case (Inr p)
    obtain ex lens where p: "p = (ex, lens)" by (cases p)
    show ?thesis
    proof (cases "step_examples ex (gen_batch_size g) lens 0 0 acc")
      case (Loop_exhausted acc')
      with l1 l2 a Inr p Cons.IH[of r1 acc' r1'] show ?thesis by simp
    qed (use l1 l2 a Inr p in simp_all)
  qed
qed

lemma next_batch_blind:
  assumes "\<forall>r r' f. fst (gen_load g r f) = fst (gen_load g r' f)"
  shows "fst (next_batch g rng) = fst (next_batch g rng')"
  using step_files_blind[OF assms]
  by (simp add: next_batch_def Let_def split: control.splits loop_result.splits)

lemma solo_blind:
  "\<forall>r r' f. fst (gen_load g r f) = fst (gen_load g r' f) \<Longrightarrow> solo n g rng = solo n g rng'"
proof (induction n arbitrary: g rng rng')
  case 0
  show ?case by simp
next
  case (Suc n)
  obtain out g1 r1 where n1: "next_batch g rng = ((out, g1), r1)"
    by (cases "next_batch g rng") auto
  obtain out' g1' r1' where n2: "next_batch g rng' = ((out', g1'), r1')"
    by (cases "next_batch g rng'") auto
  from next_batch_blind[OF Suc.prems, of rng rng'] n1 n2 have eq: "out' = out" "g1' = g1"
    by simp_all
  from next_batch_keeps[of g rng] n1 have "gen_load g1 = gen_load g" by simp
  with Suc.prems have "\<forall>r r' f. fst (gen_load g1 r f) = fst (gen_load g1 r' f)" by simp
  from Suc.IH[OF this, of r1 r1'] n1 n2 eq show ?case by simp
qed









section \<open>The claims\<close>

subsection \<open>C1: lengths that do not add up to the token buffer\<close>

text \<open>
  Claim C1 says that every archive with \<open>sum(lengths) \<noteq> len(token_ids)\<close> makes the
  reader raise. The readers never compare the two numbers. In \<open>t.npz\<close> the lengths sum
  to 2 and the buffer holds 3 tokens: each of the three readers completes its pass
  without an exception, yields the one example of two tokens, and the third token
  belongs to no example.
\<close>

theorem length_mismatch_counterexample:
  "sum_list (archive_field demo_env ''t.npz'' ''lengths'') \<noteq>
     int (length (archive_field demo_env ''t.npz'' ''token_ids'')) \<and>
   fst (sequence_sample_reader [''t.npz''] 1 ''labels'' demo_env ()) =
     ([[(NDArray (2, 1) [1, 2], NDArray (2, 1) [0, 1], NDArray (2, 1) [10, 20])]], None) \<and>
   fst (normal_sample_reader [''t.npz''] 1 ''labels'' demo_env ()) =
     ([[(NDArray (2, 1) [1, 2], NDArray (2, 1) [0, 1], NDArray (1, 1) [10])]], None) \<and>
   fst (pretrain_sample_reader demo_mask [''t.npz''] 1 demo_env 0) =
     ([[(NDArray (2, 1) [0, 2], NDArray (2, 1) [0, 1], NDArray (2, 1) [1, - 1])]], None)"
  by code_simp

text \<open>
  Claim C1, amended. Let every file of \<open>filenames\<close> exist with the fields the reader
  loads and with non-negative lengths (and, for the pretraining reader, let the masking
  transform keep the buffer length). Then, for each of the three readers: if the lengths
  of some file sum to more than its number of tokens, the pass ends with the
  \<open>ValueError\<close> of \<open>reshape\<close>; and whether or not the pass ends with an exception, the
  examples it yields, in order, have exactly the token counts of the leading \<open>lengths\<close>
  entries, so no yielded example has a token slice shortened by the end of the buffer.
\<close>

theorem overrun_raises_ValueError:
  "(keeps_length apply_bert_mask \<and>
    (\<forall>f\<in>set filenames. has_fields env [''token_ids'', ''lengths''] f \<and>
                         non_negative (archive_field env f ''lengths'')) \<longrightarrow>
      ((\<exists>f\<in>set filenames. int (length (archive_field env f ''token_ids'')) <
                             sum_list (archive_field env f ''lengths'')) \<longrightarrow>
         snd (fst (pretrain_sample_reader apply_bert_mask filenames batch_size env rng)) =
           Some ValueError) \<and>
      map (\<lambda>x. int (length (flat (fst x))))
          (concat (fst (fst (pretrain_sample_reader apply_bert_mask filenames batch_size env rng)))) =
        take (length (concat (fst (fst
               (pretrain_sample_reader apply_bert_mask filenames batch_size env rng)))))
          (all_lengths env filenames)) \<and>
   ((\<forall>f\<in>set filenames. has_fields env [''token_ids'', label_name, ''lengths''] f \<and>
                         non_negative (archive_field env f ''lengths'')) \<longrightarrow>
      ((\<exists>f\<in>set filenames. int (length (archive_field env f ''token_ids'')) <
                             sum_list (archive_field env f ''lengths'')) \<longrightarrow>
         snd (fst (sequence_sample_reader filenames batch_size label_name env rng)) =
           Some ValueError) \<and>
      map (\<lambda>x. int (length (flat (fst x))))
          (concat (fst (fst (sequence_sample_reader filenames batch_size label_name env rng)))) =
        take (length (concat (fst (fst
               (sequence_sample_reader filenames batch_size label_name env rng)))))
          (all_lengths env filenames)) \<and>
   ((\<forall>f\<in>set filenames. has_fields env [''token_ids'', label_name, ''lengths''] f \<and>
                         non_negative (archive_field env f ''lengths'')) \<longrightarrow>
      ((\<exists>f\<in>set filenames. int (length (archive_field env f ''token_ids'')) <
                             sum_list (archive_field env f ''lengths'')) \<longrightarrow>
         snd (fst (normal_sample_reader filenames batch_size label_name env rng)) =
           Some ValueError) \<and>
      map (\<lambda>x. int (length (flat (fst x))))
          (concat (fst (fst (normal_sample_reader filenames batch_size label_name env rng)))) =
        take (length (concat (fst (fst
               (normal_sample_reader filenames batch_size label_name env rng)))))
          (all_lengths env filenames))"
  (is "(?P1 \<longrightarrow> ?Q1) \<and> (?P2 \<longrightarrow> ?Q2) \<and> (?P3 \<longrightarrow> ?Q3)")
proof -
  have main:
    "((\<exists>f\<in>set filenames. int (length (archive_field env f ''token_ids'')) <
                             sum_list (archive_field env f ''lengths'')) \<longrightarrow>
         snd (fst (reader_body load batch_size filenames rng)) = Some ValueError) \<and>
      map (\<lambda>x. int (length (flat (fst x))))
          (concat (fst (fst (reader_body load batch_size filenames rng)))) =
        take (length (concat (fst (fst (reader_body load batch_size filenames rng)))))
          (all_lengths env filenames)"
    if d: "\<forall>f\<in>set filenames.
             decodes load (\<lambda>f. length (archive_field env f ''token_ids''))
               (\<lambda>f. archive_field env f ''lengths'') f \<and>
             non_negative (archive_field env f ''lengths'')"
    for load :: "'a loader"
  proof -
    let ?out = "fst (reader_body load batch_size filenames rng)"
    from reader_body_whole[OF d, of batch_size rng] have
      rv: "snd ?out = None \<or> snd ?out = Some ValueError"
      and w: "list_all2 whole (take (length (concat (fst ?out))) (all_lengths env filenames))
                (concat (fst ?out))"
      and ok: "snd ?out = None \<longrightarrow>
                 (\<forall>f\<in>set filenames. sum_list (archive_field env f ''lengths'') \<le>
                                      int (length (archive_field env f ''token_ids'')))"
      unfolding all_lengths_def by auto
    have "non_negative (all_lengths env filenames)"
      unfolding all_lengths_def using d by (intro non_negative_concat) simp
    then have "non_negative (take (length (concat (fst ?out))) (all_lengths env filenames))"
      by (rule non_negative_take)
    from whole_counts[OF w this] rv ok show ?thesis by fastforce
  qed
  show ?thesis
  proof (intro conjI)
    show "?P1 \<longrightarrow> ?Q1"
    proof
      assume ?P1
      then have "\<forall>f\<in>set filenames.
             decodes (pretrain_load apply_bert_mask env)
               (\<lambda>f. length (archive_field env f ''token_ids''))
               (\<lambda>f. archive_field env f ''lengths'') f \<and>
             non_negative (archive_field env f ''lengths'')"
        by (auto intro: decodes_pretrain_load)
      from main[OF this] show ?Q1 by (simp add: pretrain_sample_reader_def)
    qed
    show "?P2 \<longrightarrow> ?Q2"
    proof
      assume ?P2
      then have "\<forall>f\<in>set filenames.
             decodes (sequence_load env label_name)
               (\<lambda>f. length (archive_field env f ''token_ids''))
               (\<lambda>f. archive_field env f ''lengths'') f \<and>
             non_negative (archive_field env f ''lengths'')"
        by (auto intro: decodes_sequence_load)
      from main[OF this] show ?Q2 by (simp add: sequence_sample_reader_def)
    qed
    show "?P3 \<longrightarrow> ?Q3"
    proof
      assume ?P3
      then have "\<forall>f\<in>set filenames.
             decodes (normal_load env label_name)
               (\<lambda>f. length (archive_field env f ''token_ids''))
               (\<lambda>f. archive_field env f ''lengths'') f \<and>
             non_negative (archive_field env f ''lengths'')"
        by (auto intro: decodes_normal_load)
      from main[OF this] show ?Q3 by (simp add: normal_sample_reader_def)
    qed
  qed
qed

theorem overrun_raises_ValueError_witness:
  "has_fields demo_env [''token_ids'', ''labels'', ''lengths''] ''a.npz'' \<and>
   has_fields demo_env [''token_ids'', ''labels'', ''lengths''] ''o.npz'' \<and>
   non_negative (archive_field demo_env ''a.npz'' ''lengths'') \<and>
   non_negative (archive_field demo_env ''o.npz'' ''lengths'') \<and>
   int (length (archive_field demo_env ''o.npz'' ''token_ids'')) <
     sum_list (archive_field demo_env ''o.npz'' ''lengths'') \<and>
   snd (fst (sequence_sample_reader [''a.npz'', ''o.npz''] 1 ''labels'' demo_env ())) =
     Some ValueError \<and>
   map (\<lambda>x. int (length (flat (fst x))))
     (concat (fst (fst (sequence_sample_reader [''a.npz'', ''o.npz''] 1 ''labels'' demo_env ())))) =
     [2, 3, 2]"
proof -
  have a: "has_fields demo_env [''token_ids'', ''labels'', ''lengths''] ''a.npz''" by code_simp
  have o: "has_fields demo_env [''token_ids'', ''labels'', ''lengths''] ''o.npz''" by code_simp
  have na: "non_negative (archive_field demo_env ''a.npz'' ''lengths'')" by code_simp
  have no: "non_negative (archive_field demo_env ''o.npz'' ''lengths'')" by code_simp
  have ov: "int (length (archive_field demo_env ''o.npz'' ''token_ids'')) <
     sum_list (archive_field demo_env ''o.npz'' ''lengths'')" by code_simp
  have h: "\<forall>f\<in>set [''a.npz'', ''o.npz''].
             has_fields demo_env [''token_ids'', ''labels'', ''lengths''] f \<and>
             non_negative (archive_field demo_env f ''lengths'')"
    using a o na no by simp
  have x: "\<exists>f\<in>set [''a.npz'', ''o.npz''].
             int (length (archive_field demo_env f ''token_ids'')) <
             sum_list (archive_field demo_env f ''lengths'')"
    using ov by simp
  have n: "length (concat (fst (fst
             (sequence_sample_reader [''a.npz'', ''o.npz''] 1 ''labels'' demo_env ())))) = 3"
    by code_simp
  have t: "take 3 (all_lengths demo_env [''a.npz'', ''o.npz'']) = [2, 3, 2]" by code_simp
  from overrun_raises_ValueError
         [where filenames = "[''a.npz'', ''o.npz'']" and env = demo_env
            and label_name = "''labels''" and batch_size = 1 and rng = "()"] h x
  have "snd (fst (sequence_sample_reader [''a.npz'', ''o.npz''] 1 ''labels'' demo_env ())) =
          Some ValueError \<and>
        map (\<lambda>x. int (length (flat (fst x))))
          (concat (fst (fst (sequence_sample_reader [''a.npz'', ''o.npz''] 1 ''labels'' demo_env ())))) =
        take (length (concat (fst (fst
               (sequence_sample_reader [''a.npz'', ''o.npz''] 1 ''labels'' demo_env ())))))
          (all_lengths demo_env [''a.npz'', ''o.npz''])"
    by blast
  with n t a o na no ov show ?thesis by (simp only: simp_thms)
qed

subsection \<open>C2: exact batching\<close>

text \<open>
  Claim C2. For well-formed archives with \<open>N\<close> examples in total and a batch size
  \<open>B \<ge> 1\<close>, a full pass of each of the three readers ends without an exception and
  yields \<open>ceil(N / B)\<close> batches: the first \<open>N // B\<close> hold exactly \<open>B\<close> examples, a
  last batch of \<open>N % B\<close> examples follows when \<open>N % B \<noteq> 0\<close>, and no further batch
  when \<open>N % B = 0\<close>.
\<close>

theorem exact_batching_of_readers:
  "(1 \<le> batch_size \<and> keeps_length apply_bert_mask \<and>
    (\<forall>f\<in>set filenames. pretrain_well_formed env f) \<longrightarrow>
      snd (fst (pretrain_sample_reader apply_bert_mask filenames batch_size env rng)) = None \<and>
      exact_batching batch_size (example_count env filenames)
        (fst (fst (pretrain_sample_reader apply_bert_mask filenames batch_size env rng)))) \<and>
   (1 \<le> batch_size \<and> (\<forall>f\<in>set filenames. sequence_well_formed env label_name f) \<longrightarrow>
      snd (fst (sequence_sample_reader filenames batch_size label_name env rng)) = None \<and>
      exact_batching batch_size (example_count env filenames)
        (fst (fst (sequence_sample_reader filenames batch_size label_name env rng)))) \<and>
   (1 \<le> batch_size \<and> (\<forall>f\<in>set filenames. normal_well_formed env label_name f) \<longrightarrow>
      snd (fst (normal_sample_reader filenames batch_size label_name env rng)) = None \<and>
      exact_batching batch_size (example_count env filenames)
        (fst (fst (normal_sample_reader filenames batch_size label_name env rng))))"
  by (simp add: pretrain_pass sequence_pass normal_pass exact_batching_batches
        length_pretrain_examples length_sequence_examples length_normal_examples)

theorem exact_batching_of_readers_witness:
  "keeps_length demo_mask \<and> pretrain_well_formed demo_env ''a.npz'' \<and>
   pretrain_well_formed demo_env ''c.npz'' \<and>
   example_count demo_env [''a.npz'', ''c.npz''] = 4 \<and>
   exact_batching 3 4 (fst (fst (pretrain_sample_reader demo_mask [''a.npz'', ''c.npz''] 3 demo_env 0))) \<and>
   map length (fst (fst (pretrain_sample_reader demo_mask [''a.npz'', ''c.npz''] 3 demo_env 0))) = [3, 1] \<and>
   exact_batching 2 4 (fst (fst (pretrain_sample_reader demo_mask [''a.npz'', ''c.npz''] 2 demo_env 0))) \<and>
   map length (fst (fst (pretrain_sample_reader demo_mask [''a.npz'', ''c.npz''] 2 demo_env 0))) = [2, 2]"
proof -
  have a: "pretrain_well_formed demo_env ''a.npz''" by code_simp
  have c: "pretrain_well_formed demo_env ''c.npz''" by code_simp
  have n: "example_count demo_env [''a.npz'', ''c.npz''] = 4" by code_simp
  have wf: "\<forall>f\<in>set [''a.npz'', ''c.npz'']. pretrain_well_formed demo_env f" using a c by simp
  have 3: "exact_batching 3 4 (fst (fst (pretrain_sample_reader demo_mask [''a.npz'', ''c.npz''] 3 demo_env 0)))"
    using exact_batching_of_readers[where batch_size = 3 and apply_bert_mask = demo_mask
        and filenames = "[''a.npz'', ''c.npz'']" and env = demo_env and rng = 0]
      keeps_length_demo_mask wf n by simp
  have 2: "exact_batching 2 4 (fst (fst (pretrain_sample_reader demo_mask [''a.npz'', ''c.npz''] 2 demo_env 0)))"
    using exact_batching_of_readers[where batch_size = 2 and apply_bert_mask = demo_mask
        and filenames = "[''a.npz'', ''c.npz'']" and env = demo_env and rng = 0]
      keeps_length_demo_mask wf n by simp
  have l3: "map length (fst (fst (pretrain_sample_reader demo_mask [''a.npz'', ''c.npz''] 3 demo_env 0))) = [3, 1]"
    by code_simp
  have l2: "map length (fst (fst (pretrain_sample_reader demo_mask [''a.npz'', ''c.npz''] 2 demo_env 0))) = [2, 2]"
    by code_simp
  from keeps_length_demo_mask a c n 3 2 l3 l2 show ?thesis by (intro conjI)
qed

subsection \<open>C3: the dispatcher\<close>

text \<open>
  Claim C3. \<open>get_sample_generator\<close> returns the pretraining reader for task
  \<open>pretrain\<close>, the sequence-labeling reader for \<open>seq_classification\<close> and the
  scalar-label reader for both \<open>classification\<close> and \<open>regression\<close>, the last two with
  the label name of the configuration (default \<open>labels\<close>). For every other task value
  the result is the \<open>NameError\<close> whose message contains that value. The error is the
  result of the factory itself: \<open>get_sample_generator\<close> has no access to the file
  system, which only a reader receives when it is called, and in the error case no reader
  exists.
\<close>

theorem get_sample_generator_dispatch:
  "(model_config ''task'' = Some ''pretrain'' \<longrightarrow>
      get_sample_generator apply_bert_mask filenames batch_size model_config =
        Inr (pretrain_sample_reader apply_bert_mask filenames batch_size)) \<and>
   (model_config ''task'' = Some ''seq_classification'' \<longrightarrow>
      get_sample_generator apply_bert_mask filenames batch_size model_config =
        Inr (sequence_sample_reader filenames batch_size
               (dict_get model_config ''label_name'' ''labels''))) \<and>
   (model_config ''task'' = Some ''classification'' \<or>
    model_config ''task'' = Some ''regression'' \<longrightarrow>
      get_sample_generator apply_bert_mask filenames batch_size model_config =
        Inr (normal_sample_reader filenames batch_size
               (dict_get model_config ''label_name'' ''labels''))) \<and>
   (model_config ''task'' = Some task \<and>
    task \<notin> {''pretrain'', ''seq_classification'', ''classification'', ''regression''} \<longrightarrow>
      get_sample_generator apply_bert_mask filenames batch_size model_config =
        Inl (NameError (''Task '' @ task @ '' is unsupport.'')))"
  by (auto simp: get_sample_generator_def Let_def)

theorem get_sample_generator_dispatch_witness:
  "get_sample_generator demo_mask [''a.npz''] 2 [''task'' \<mapsto> ''pretrain''] =
     Inr (pretrain_sample_reader demo_mask [''a.npz''] 2) \<and>
   get_sample_generator demo_mask [''a.npz''] 2
       [''task'' \<mapsto> ''seq_classification'', ''label_name'' \<mapsto> ''ss''] =
     Inr (sequence_sample_reader [''a.npz''] 2 ''ss'') \<and>
   get_sample_generator demo_mask [''b.npz''] 2 [''task'' \<mapsto> ''classification''] =
     Inr (normal_sample_reader [''b.npz''] 2 ''labels'') \<and>
   get_sample_generator demo_mask [''b.npz''] 2 [''task'' \<mapsto> ''regression''] =
     Inr (normal_sample_reader [''b.npz''] 2 ''labels'') \<and>
   get_sample_generator demo_mask [''missing.npz''] 2 [''task'' \<mapsto> ''bogus''] =
     Inl (NameError ''Task bogus is unsupport.'')"
proof -
  have 1: "get_sample_generator demo_mask [''a.npz''] 2 [''task'' \<mapsto> ''pretrain''] =
     Inr (pretrain_sample_reader demo_mask [''a.npz''] 2)"
    using get_sample_generator_dispatch
      [where model_config = "[''task'' \<mapsto> ''pretrain'']" and apply_bert_mask = demo_mask
         and filenames = "[''a.npz'']" and batch_size = 2] by simp
  have 2: "get_sample_generator demo_mask [''a.npz''] 2
       [''task'' \<mapsto> ''seq_classification'', ''label_name'' \<mapsto> ''ss''] =
     Inr (sequence_sample_reader [''a.npz''] 2 ''ss'')"
    using get_sample_generator_dispatch
      [where model_config = "[''task'' \<mapsto> ''seq_classification'', ''label_name'' \<mapsto> ''ss'']"
         and apply_bert_mask = demo_mask and filenames = "[''a.npz'']" and batch_size = 2]
    by (simp add: dict_get_def)
  have 3: "get_sample_generator demo_mask [''b.npz''] 2 [''task'' \<mapsto> ''classification''] =
     Inr (normal_sample_reader [''b.npz''] 2 ''labels'')"
    using get_sample_generator_dispatch
      [where model_config = "[''task'' \<mapsto> ''classification'']" and apply_bert_mask = demo_mask
         and filenames = "[''b.npz'']" and batch_size = 2]
    by (simp add: dict_get_def)
  have 4: "get_sample_generator demo_mask [''b.npz''] 2 [''task'' \<mapsto> ''regression''] =
     Inr (normal_sample_reader [''b.npz''] 2 ''labels'')"
    using get_sample_generator_dispatch
      [where model_config = "[''task'' \<mapsto> ''regression'']" and apply_bert_mask = demo_mask
         and filenames = "[''b.npz'']" and batch_size = 2]
    by (simp add: dict_get_def)
  have 5: "get_sample_generator demo_mask [''missing.npz''] 2 [''task'' \<mapsto> ''bogus''] =
     Inl (NameError ''Task bogus is unsupport.'')"
    using get_sample_generator_dispatch
      [where model_config = "[''task'' \<mapsto> ''bogus'']" and task = "''bogus''"
         and apply_bert_mask = demo_mask and filenames = "[''missing.npz'']" and batch_size = 2]
    by simp
  from 1 2 3 4 5 show ?thesis by (intro conjI)
qed

subsection \<open>C4: the label of the scalar-label reader\<close>

text \<open>
  Claim C4. In a pass of the scalar-label reader over well-formed archives, the example
  with index \<open>i\<close> of the \<open>k\<close>-th file (it follows the examples of the files before it)
  has the label \<open>labels[i]\<close> of that file as a \<open>(1, 1)\<close> array: the label is found by
  the example index, the lengths of the examples before it play no part. With
  \<open>lengths = [3, 1, 2]\<close> and \<open>labels = [7, 8, 9]\<close> the label of example 1 is 8.
\<close>

theorem scalar_label_by_example_index:
  assumes "\<forall>f\<in>set filenames. normal_well_formed env label_name f"
    and "k < length filenames"
    and "i < length (archive_field env (filenames ! k) ''lengths'')"
  shows "snd (snd (concat (fst (fst (normal_sample_reader filenames batch_size label_name env rng)))
                    ! (example_count env (take k filenames) + i))) =
         NDArray (1, 1) [archive_field env (filenames ! k) label_name ! i]"
proof -
  have "concat (fst (fst (normal_sample_reader filenames batch_size label_name env rng))) =
          concat (map (normal_examples env label_name) filenames)"
    using assms(1) by (simp add: normal_pass concat_batches)
  moreover have "example_count env (take k filenames) =
      length (concat (map (normal_examples env label_name) (take k filenames)))"
    by (simp only: length_normal_examples)
  moreover have "i < length (normal_examples env label_name (filenames ! k))"
    using assms(3) by (simp add: normal_examples_def Let_def)
  ultimately have "concat (fst (fst (normal_sample_reader filenames batch_size label_name env rng)))
        ! (example_count env (take k filenames) + i) =
      normal_examples env label_name (filenames ! k) ! i"
    using nth_concat_map[OF assms(2), of i "normal_examples env label_name"] by simp
  then show ?thesis
    using assms(3) by (simp add: normal_examples_def scalar_example_def Let_def)
qed

theorem scalar_label_by_example_index_witness:
  "normal_well_formed demo_env ''labels'' ''b.npz'' \<and>
   archive_field demo_env ''b.npz'' ''lengths'' = [3, 1, 2] \<and>
   archive_field demo_env ''b.npz'' ''labels'' = [7, 8, 9] \<and>
   snd (snd (concat (fst (fst (normal_sample_reader [''b.npz''] 2 ''labels'' demo_env ()))) ! 1)) =
     NDArray (1, 1) [8]"
proof -
  have b: "normal_well_formed demo_env ''labels'' ''b.npz''" by code_simp
  have l: "archive_field demo_env ''b.npz'' ''lengths'' = [3, 1, 2]" by code_simp
  have v: "archive_field demo_env ''b.npz'' ''labels'' = [7, 8, 9]" by code_simp
  have n: "example_count demo_env [] = 0" by code_simp
  have wf: "\<forall>f\<in>set [''b.npz'']. normal_well_formed demo_env ''labels'' f" using b by simp
  have "snd (snd (concat (fst (fst (normal_sample_reader [''b.npz''] 2 ''labels'' demo_env ())))
                    ! (example_count demo_env (take 0 [''b.npz'']) + 1))) =
         NDArray (1, 1) [archive_field demo_env ([''b.npz''] ! 0) ''labels'' ! 1]"
    by (rule scalar_label_by_example_index[OF wf]) (simp_all add: l)
  then have "snd (snd (concat (fst (fst (normal_sample_reader [''b.npz''] 2 ''labels'' demo_env ()))) ! 1)) =
     NDArray (1, 1) [8]"
    by (simp add: n v)
  with b l v show ?thesis by (simp only: simp_thms)
qed

subsection \<open>C5: the label slice of the sequence-labeling reader\<close>

text \<open>
  Claim C5. In a pass of the sequence-labeling reader over well-formed archives, the
  example with index \<open>i\<close> of the \<open>k\<close>-th file has the tokens
  \<open>token_ids[offset : offset + lengths[i]]\<close> and the label
  \<open>labels[offset : offset + lengths[i]]\<close> of the field \<open>label_name\<close>, with one and the
  same \<open>offset\<close>, the sum of the lengths before \<open>i\<close>. With \<open>token_ids = [1,2,3,4,5]\<close>
  and \<open>lengths = [2, 3]\<close> example 0 has the tokens \<open>[1, 2]\<close> and the labels
  \<open>labels[0:2]\<close>.
\<close>

theorem sequence_label_same_offset:
  assumes "\<forall>f\<in>set filenames. sequence_well_formed env label_name f"
    and "k < length filenames"
    and "i < length (archive_field env (filenames ! k) ''lengths'')"
  shows "concat (fst (fst (sequence_sample_reader filenames batch_size label_name env rng)))
           ! (example_count env (take k filenames) + i) =
         (let token_ids = archive_field env (filenames ! k) ''token_ids'';
              labels = archive_field env (filenames ! k) label_name;
              lengths = archive_field env (filenames ! k) ''lengths'';
              offset = nat (sum_list (take i lengths));
              n = nat (lengths ! i)
          in (NDArray (n, 1) (take n (drop offset token_ids)),
              NDArray (n, 1) (map int [0..<n]),
              NDArray (n, 1) (take n (drop offset labels))))"
proof -
  have "concat (fst (fst (sequence_sample_reader filenames batch_size label_name env rng))) =
          concat (map (sequence_examples env label_name) filenames)"
    using assms(1) by (simp add: sequence_pass concat_batches)
  moreover have "example_count env (take k filenames) =
      length (concat (map (sequence_examples env label_name) (take k filenames)))"
    by (simp only: length_sequence_examples)
  moreover have "i < length (sequence_examples env label_name (filenames ! k))"
    using assms(3) by (simp add: sequence_examples_def Let_def)
  ultimately have "concat (fst (fst (sequence_sample_reader filenames batch_size label_name env rng)))
        ! (example_count env (take k filenames) + i) =
      sequence_examples env label_name (filenames ! k) ! i"
    using nth_concat_map[OF assms(2), of i "sequence_examples env label_name"] by simp
  then show ?thesis
    using assms(3) by (simp add: sequence_examples_def token_example_def Let_def)
qed

theorem sequence_label_same_offset_witness:
  "sequence_well_formed demo_env ''labels'' ''a.npz'' \<and>
   archive_field demo_env ''a.npz'' ''token_ids'' = [1, 2, 3, 4, 5] \<and>
   archive_field demo_env ''a.npz'' ''lengths'' = [2, 3] \<and>
   archive_field demo_env ''a.npz'' ''labels'' = [10, 20, 30, 40, 50] \<and>
   concat (fst (fst (sequence_sample_reader [''a.npz''] 2 ''labels'' demo_env ()))) ! 0 =
     (NDArray (2, 1) [1, 2], NDArray (2, 1) [0, 1], NDArray (2, 1) [10, 20]) \<and>
   concat (fst (fst (sequence_sample_reader [''a.npz''] 2 ''labels'' demo_env ()))) ! 1 =
     (NDArray (3, 1) [3, 4, 5], NDArray (3, 1) [0, 1, 2], NDArray (3, 1) [30, 40, 50])"
proof -
  have a: "sequence_well_formed demo_env ''labels'' ''a.npz''" by code_simp
  have t: "archive_field demo_env ''a.npz'' ''token_ids'' = [1, 2, 3, 4, 5]" by code_simp
  have l: "archive_field demo_env ''a.npz'' ''lengths'' = [2, 3]" by code_simp
  have v: "archive_field demo_env ''a.npz'' ''labels'' = [10, 20, 30, 40, 50]" by code_simp
  have n: "example_count demo_env [] = 0" by code_simp
  have wf: "\<forall>f\<in>set [''a.npz'']. sequence_well_formed demo_env ''labels'' f" using a by simp
  have "concat (fst (fst (sequence_sample_reader [''a.npz''] 2 ''labels'' demo_env ())))
           ! (example_count demo_env (take 0 [''a.npz'']) + 0) =
         (let token_ids = archive_field demo_env ([''a.npz''] ! 0) ''token_ids'';
              labels = archive_field demo_env ([''a.npz''] ! 0) ''labels'';
              lengths = archive_field demo_env ([''a.npz''] ! 0) ''lengths'';
              offset = nat (sum_list (take 0 lengths));
              n = nat (lengths ! 0)
          in (NDArray (n, 1) (take n (drop offset token_ids)),
              NDArray (n, 1) (map int [0..<n]),
              NDArray (n, 1) (take n (drop offset labels))))"
    by (rule sequence_label_same_offset[OF wf]) (simp_all add: l)
  moreover have "(let token_ids = [1, 2, 3, 4, 5 :: int]; labels = [10, 20, 30, 40, 50 :: int];
              lengths = [2, 3 :: int];
              offset = nat (sum_list (take 0 lengths));
              n = nat (lengths ! 0)
          in (NDArray (n, 1) (take n (drop offset token_ids)),
              NDArray (n, 1) (map int [0..<n]),
              NDArray (n, 1) (take n (drop offset labels)))) =
       (NDArray (2, 1) [1, 2], NDArray (2, 1) [0, 1], NDArray (2, 1) [10, 20])"
    by code_simp
  ultimately have 0: "concat (fst (fst (sequence_sample_reader [''a.npz''] 2 ''labels'' demo_env ()))) ! 0 =
     (NDArray (2, 1) [1, 2], NDArray (2, 1) [0, 1], NDArray (2, 1) [10, 20])"
    by (simp add: n t l v)
  have "concat (fst (fst (sequence_sample_reader [''a.npz''] 2 ''labels'' demo_env ())))
           ! (example_count demo_env (take 0 [''a.npz'']) + 1) =
         (let token_ids = archive_field demo_env ([''a.npz''] ! 0) ''token_ids'';
              labels = archive_field demo_env ([''a.npz''] ! 0) ''labels'';
              lengths = archive_field demo_env ([''a.npz''] ! 0) ''lengths'';
              offset = nat (sum_list (take 1 lengths));
              n = nat (lengths ! 1)
          in (NDArray (n, 1) (take n (drop offset token_ids)),
              NDArray (n, 1) (map int [0..<n]),
              NDArray (n, 1) (take n (drop offset labels))))"
    by (rule sequence_label_same_offset[OF wf]) (simp_all add: l)
  moreover have "(let token_ids = [1, 2, 3, 4, 5 :: int]; labels = [10, 20, 30, 40, 50 :: int];
              lengths = [2, 3 :: int];
              offset = nat (sum_list (take 1 lengths));
              n = nat (lengths ! 1)
          in (NDArray (n, 1) (take n (drop offset token_ids)),
              NDArray (n, 1) (map int [0..<n]),
              NDArray (n, 1) (take n (drop offset labels)))) =
       (NDArray (3, 1) [3, 4, 5], NDArray (3, 1) [0, 1, 2], NDArray (3, 1) [30, 40, 50])"
    by code_simp
  ultimately have 1: "concat (fst (fst (sequence_sample_reader [''a.npz''] 2 ''labels'' demo_env ()))) ! 1 =
     (NDArray (3, 1) [3, 4, 5], NDArray (3, 1) [0, 1, 2], NDArray (3, 1) [30, 40, 50])"
    by (simp add: n t l v)
  from a t l v 0 1 show ?thesis by (intro conjI)
qed

subsection \<open>C6: positions and the shape of the tokens\<close>

text \<open>
  Claim C6. In each of the three readers, the example built from the entry \<open>L\<close> of
  \<open>lengths\<close> has the positions \<open>0, 1, ..., L - 1\<close> as a column of shape \<open>(L, 1)\<close> and
  tokens of shape \<open>(L, 1)\<close> (\<open>whole L\<close>, which also says that the token buffer holds
  \<open>L\<close> elements); a length is a count and is taken non-negative. Over well-formed
  archives a pass yields one such example for every entry of \<open>lengths\<close>, in the order
  of the files and of the entries. Over files that only exist with the fields the reader
  loads, where a pass can end with an exception, the examples yielded before it are such
  examples for the leading entries.
\<close>

theorem positions_and_token_shape:
  "(keeps_length apply_bert_mask \<and> (\<forall>f\<in>set filenames. pretrain_well_formed env f) \<longrightarrow>
      list_all2 whole (all_lengths env filenames)
        (concat (fst (fst (pretrain_sample_reader apply_bert_mask filenames batch_size env rng))))) \<and>
   ((\<forall>f\<in>set filenames. sequence_well_formed env label_name f) \<longrightarrow>
      list_all2 whole (all_lengths env filenames)
        (concat (fst (fst (sequence_sample_reader filenames batch_size label_name env rng))))) \<and>
   ((\<forall>f\<in>set filenames. normal_well_formed env label_name f) \<longrightarrow>
      list_all2 whole (all_lengths env filenames)
        (concat (fst (fst (normal_sample_reader filenames batch_size label_name env rng))))) \<and>
   (keeps_length apply_bert_mask \<and>
    (\<forall>f\<in>set filenames. has_fields env [''token_ids'', ''lengths''] f \<and>
                         non_negative (archive_field env f ''lengths'')) \<longrightarrow>
      list_all2 whole
        (take (length (concat (fst (fst
               (pretrain_sample_reader apply_bert_mask filenames batch_size env rng)))))
          (all_lengths env filenames))
        (concat (fst (fst (pretrain_sample_reader apply_bert_mask filenames batch_size env rng))))) \<and>
   ((\<forall>f\<in>set filenames. has_fields env [''token_ids'', label_name, ''lengths''] f \<and>
                         non_negative (archive_field env f ''lengths'')) \<longrightarrow>
      list_all2 whole
        (take (length (concat (fst (fst
               (sequence_sample_reader filenames batch_size label_name env rng)))))
          (all_lengths env filenames))
        (concat (fst (fst (sequence_sample_reader filenames batch_size label_name env rng))))) \<and>
   ((\<forall>f\<in>set filenames. has_fields env [''token_ids'', label_name, ''lengths''] f \<and>
                         non_negative (archive_field env f ''lengths'')) \<longrightarrow>
      list_all2 whole
        (take (length (concat (fst (fst
               (normal_sample_reader filenames batch_size label_name env rng)))))
          (all_lengths env filenames))
        (concat (fst (fst (normal_sample_reader filenames batch_size label_name env rng)))))"
  (is "(?W1 \<longrightarrow> ?F1) \<and> (?W2 \<longrightarrow> ?F2) \<and> (?W3 \<longrightarrow> ?F3) \<and>
       (?P1 \<longrightarrow> ?Q1) \<and> (?P2 \<longrightarrow> ?Q2) \<and> (?P3 \<longrightarrow> ?Q3)")
proof -
  have main:
    "list_all2 whole
       (take (length (concat (fst (fst (reader_body load batch_size filenames rng)))))
          (all_lengths env filenames))
       (concat (fst (fst (reader_body load batch_size filenames rng))))"
    if d: "\<forall>f\<in>set filenames.
             decodes load (\<lambda>f. length (archive_field env f ''token_ids''))
               (\<lambda>f. archive_field env f ''lengths'') f \<and>
             non_negative (archive_field env f ''lengths'')"
    for load :: "'a loader"
    using reader_body_whole[OF d, of batch_size rng] unfolding all_lengths_def by simp
  have q1: "?P1 \<longrightarrow> ?Q1"
  proof
    assume ?P1
    then have "\<forall>f\<in>set filenames.
           decodes (pretrain_load apply_bert_mask env)
             (\<lambda>f. length (archive_field env f ''token_ids''))
             (\<lambda>f. archive_field env f ''lengths'') f \<and>
           non_negative (archive_field env f ''lengths'')"
      by (auto intro: decodes_pretrain_load)
    from main[OF this] show ?Q1 by (simp add: pretrain_sample_reader_def)
  qed
  have q2: "?P2 \<longrightarrow> ?Q2"
  proof
    assume ?P2
    then have "\<forall>f\<in>set filenames.
           decodes (sequence_load env label_name)
             (\<lambda>f. length (archive_field env f ''token_ids''))
             (\<lambda>f. archive_field env f ''lengths'') f \<and>
           non_negative (archive_field env f ''lengths'')"
      by (auto intro: decodes_sequence_load)
    from main[OF this] show ?Q2 by (simp add: sequence_sample_reader_def)
  qed
  have q3: "?P3 \<longrightarrow> ?Q3"
  proof
    assume ?P3
    then have "\<forall>f\<in>set filenames.
           decodes (normal_load env label_name)
             (\<lambda>f. length (archive_field env f ''token_ids''))
             (\<lambda>f. archive_field env f ''lengths'') f \<and>
           non_negative (archive_field env f ''lengths'')"
      by (auto intro: decodes_normal_load)
    from main[OF this] show ?Q3 by (simp add: normal_sample_reader_def)
  qed
  have f1: "?W1 \<longrightarrow> ?F1"
  proof
    assume w: ?W1
    then have ?P1 by (auto dest: well_formed_fields(1))
    with q1 have ?Q1 by blast
    moreover have "length (concat (fst (fst
        (pretrain_sample_reader apply_bert_mask filenames batch_size env rng)))) =
        length (all_lengths env filenames)"
      using w by (simp add: pretrain_pass concat_batches length_pretrain_examples length_all_lengths)
    ultimately show ?F1 by simp
  qed
  have f2: "?W2 \<longrightarrow> ?F2"
  proof
    assume w: ?W2
    then have ?P2 by (auto dest: well_formed_fields(2))
    with q2 have ?Q2 by blast
    moreover have "length (concat (fst (fst
        (sequence_sample_reader filenames batch_size label_name env rng)))) =
        length (all_lengths env filenames)"
      using w by (simp add: sequence_pass concat_batches length_sequence_examples length_all_lengths)
    ultimately show ?F2 by simp
  qed
  have f3: "?W3 \<longrightarrow> ?F3"
  proof
    assume w: ?W3
    then have ?P3 by (auto dest: well_formed_fields(3))
    with q3 have ?Q3 by blast
    moreover have "length (concat (fst (fst
        (normal_sample_reader filenames batch_size label_name env rng)))) =
        length (all_lengths env filenames)"
      using w by (simp add: normal_pass concat_batches length_normal_examples length_all_lengths)
    ultimately show ?F3 by simp
  qed
  from f1 f2 f3 q1 q2 q3 show ?thesis by (intro conjI)
qed

theorem positions_and_token_shape_witness:
  "keeps_length demo_mask \<and>
   pretrain_well_formed demo_env ''a.npz'' \<and>
   sequence_well_formed demo_env ''labels'' ''a.npz'' \<and>
   sequence_well_formed demo_env ''labels'' ''c.npz'' \<and>
   normal_well_formed demo_env ''labels'' ''b.npz'' \<and>
   all_lengths demo_env [''a.npz''] = [2, 3] \<and>
   all_lengths demo_env [''a.npz'', ''c.npz''] = [2, 3, 1, 2] \<and>
   all_lengths demo_env [''b.npz''] = [3, 1, 2] \<and>
   list_all2 whole [2, 3]
     (concat (fst (fst (pretrain_sample_reader demo_mask [''a.npz''] 2 demo_env 0)))) \<and>
   list_all2 whole [2, 3, 1, 2]
     (concat (fst (fst (sequence_sample_reader [''a.npz'', ''c.npz''] 3 ''labels'' demo_env ())))) \<and>
   list_all2 whole [3, 1, 2]
     (concat (fst (fst (normal_sample_reader [''b.npz''] 2 ''labels'' demo_env ())))) \<and>
   map (\<lambda>x. fst (snd x))
     (concat (fst (fst (pretrain_sample_reader demo_mask [''a.npz''] 2 demo_env 0)))) =
     [NDArray (2, 1) [0, 1], NDArray (3, 1) [0, 1, 2]] \<and>
   map (\<lambda>x. fst (snd x))
     (concat (fst (fst (sequence_sample_reader [''a.npz'', ''c.npz''] 3 ''labels'' demo_env ())))) =
     [NDArray (2, 1) [0, 1], NDArray (3, 1) [0, 1, 2], NDArray (1, 1) [0], NDArray (2, 1) [0, 1]] \<and>
   map (\<lambda>x. fst (snd x))
     (concat (fst (fst (normal_sample_reader [''b.npz''] 2 ''labels'' demo_env ())))) =
     [NDArray (3, 1) [0, 1, 2], NDArray (1, 1) [0], NDArray (2, 1) [0, 1]] \<and>
   map (\<lambda>x. shape (fst x))
     (concat (fst (fst (pretrain_sample_reader demo_mask [''a.npz''] 2 demo_env 0)))) =
     [(2, 1), (3, 1)] \<and>
   map (\<lambda>x. shape (fst x))
     (concat (fst (fst (sequence_sample_reader [''a.npz'', ''c.npz''] 3 ''labels'' demo_env ())))) =
     [(2, 1), (3, 1), (1, 1), (2, 1)] \<and>
   map (\<lambda>x. shape (fst x))
     (concat (fst (fst (normal_sample_reader [''b.npz''] 2 ''labels'' demo_env ())))) =
     [(3, 1), (1, 1), (2, 1)]"
proof -
  have pa: "pretrain_well_formed demo_env ''a.npz''" by code_simp
  have sa: "sequence_well_formed demo_env ''labels'' ''a.npz''" by code_simp
  have sc: "sequence_well_formed demo_env ''labels'' ''c.npz''" by code_simp
  have nb: "normal_well_formed demo_env ''labels'' ''b.npz''" by code_simp
  have la: "all_lengths demo_env [''a.npz''] = [2, 3]" by code_simp
  have lac: "all_lengths demo_env [''a.npz'', ''c.npz''] = [2, 3, 1, 2]" by code_simp
  have lb: "all_lengths demo_env [''b.npz''] = [3, 1, 2]" by code_simp
  have h1: "keeps_length demo_mask \<and> (\<forall>f\<in>set [''a.npz'']. pretrain_well_formed demo_env f)"
    using keeps_length_demo_mask pa by simp
  have h2: "\<forall>f\<in>set [''a.npz'', ''c.npz'']. sequence_well_formed demo_env ''labels'' f"
    using sa sc by simp
  have h3: "\<forall>f\<in>set [''b.npz'']. normal_well_formed demo_env ''labels'' f"
    using nb by simp
  have w1: "list_all2 whole [2, 3]
     (concat (fst (fst (pretrain_sample_reader demo_mask [''a.npz''] 2 demo_env 0))))"
    using positions_and_token_shape
            [where apply_bert_mask = demo_mask and filenames = "[''a.npz'']" and env = demo_env
               and batch_size = 2 and rng = 0] h1
    unfolding la by blast
  have w2: "list_all2 whole [2, 3, 1, 2]
     (concat (fst (fst (sequence_sample_reader [''a.npz'', ''c.npz''] 3 ''labels'' demo_env ()))))"
    using positions_and_token_shape
            [where filenames = "[''a.npz'', ''c.npz'']" and env = demo_env
               and label_name = "''labels''" and batch_size = 3 and rng = "()"] h2
    unfolding lac by blast
  have w3: "list_all2 whole [3, 1, 2]
     (concat (fst (fst (normal_sample_reader [''b.npz''] 2 ''labels'' demo_env ()))))"
    using positions_and_token_shape
            [where filenames = "[''b.npz'']" and env = demo_env
               and label_name = "''labels''" and batch_size = 2 and rng = "()"] h3
    unfolding lb by blast
  have p1: "map (\<lambda>x. fst (snd x))
     (concat (fst (fst (pretrain_sample_reader demo_mask [''a.npz''] 2 demo_env 0)))) =
     [NDArray (2, 1) [0, 1], NDArray (3, 1) [0, 1, 2]]" by code_simp
  have p2: "map (\<lambda>x. fst (snd x))
     (concat (fst (fst (sequence_sample_reader [''a.npz'', ''c.npz''] 3 ''labels'' demo_env ())))) =
     [NDArray (2, 1) [0, 1], NDArray (3, 1) [0, 1, 2], NDArray (1, 1) [0], NDArray (2, 1) [0, 1]]"
    by code_simp
  have p3: "map (\<lambda>x. fst (snd x))
     (concat (fst (fst (normal_sample_reader [''b.npz''] 2 ''labels'' demo_env ())))) =
     [NDArray (3, 1) [0, 1, 2], NDArray (1, 1) [0], NDArray (2, 1) [0, 1]]" by code_simp
  have s1: "map (\<lambda>x. shape (fst x))
     (concat (fst (fst (pretrain_sample_reader demo_mask [''a.npz''] 2 demo_env 0)))) =
     [(2, 1), (3, 1)]" by code_simp
  have s2: "map (\<lambda>x. shape (fst x))
     (concat (fst (fst (sequence_sample_reader [''a.npz'', ''c.npz''] 3 ''labels'' demo_env ())))) =
     [(2, 1), (3, 1), (1, 1), (2, 1)]" by code_simp
  have s3: "map (\<lambda>x. shape (fst x))
     (concat (fst (fst (normal_sample_reader [''b.npz''] 2 ''labels'' demo_env ())))) =
     [(3, 1), (1, 1), (2, 1)]" by code_simp
  from keeps_length_demo_mask pa sa sc nb la lac lb w1 w2 w3 p1 p2 p3 s1 s2 s3
  show ?thesis by (intro conjI)
qed

subsection \<open>C7: two passes over the same files\<close>




subsection \<open>C8: the batch builder for prediction\<close>

text \<open>
  Claim C8 speaks of every input list of sequences. For the empty list the loop body
  never runs, \<open>lods\<close> stays \<open>[0]\<close> (line 197), and \<open>set_lod([[0]])\<close> at line 205 is
  refused, since a level of an offset table needs at least two offsets:
  \<open>gen_batch_data\<close> raises and returns no batch.
\<close>

theorem gen_batch_data_empty_counterexample:
  "gen_batch_loop char_tokenizer [] ([], [], [0]) = Inr ([], [], [0]) \<and>
   check_lod [[0]] 0 = False \<and>
   gen_batch_data [] char_tokenizer () = Inl InvalidArgumentError"
  by code_simp

text \<open>
  Claim C8, amended. For every non-empty input list whose sequences the tokenizer accepts
  (with ids that fit 64 bits), \<open>gen_batch_data\<close> returns a batch whose token buffer is
  the concatenation of the id lists and whose position buffer is \<open>0..len - 1\<close> per
  example, both as columns; the offset table of \<open>protein_token\<close> and that of
  \<open>protein_pos\<close> are the same list, the cumulative sums
  \<open>[0, len_0, len_0 + len_1, ...]\<close> of the token counts. For \<open>['AC', 'G']\<close> and one id
  per character the offsets are \<open>[0, 2, 3]\<close> and the positions \<open>[0, 1, 0]\<close>.
\<close>

theorem gen_batch_data_offsets:
  assumes "examples \<noteq> []" and "\<forall>e\<in>set examples. tokenizes gen_token_ids e"
  shows "\<exists>batch. gen_batch_data examples gen_token_ids place = Inr batch \<and>
     tensor_lod (protein_token batch) =
       [lod_offsets (map length (token_lists gen_token_ids examples))] \<and>
     tensor_lod (protein_pos batch) =
       [lod_offsets (map length (token_lists gen_token_ids examples))] \<and>
     flat (tensor_data (protein_token batch)) = concat (token_lists gen_token_ids examples) \<and>
     flat (tensor_data (protein_pos batch)) =
       concat (map (\<lambda>ids. map int [0..<length ids]) (token_lists gen_token_ids examples)) \<and>
     shape (tensor_data (protein_token batch)) =
       (length (concat (token_lists gen_token_ids examples)), 1) \<and>
     shape (tensor_data (protein_pos batch)) =
       (length (concat (token_lists gen_token_ids examples)), 1) \<and>
     tensor_place (protein_token batch) = place \<and>
     tensor_place (protein_pos batch) = place"
proof -
  let ?toks = "token_lists gen_token_ids examples"
  let ?pos = "concat (map (\<lambda>ids. map int [0..<length ids]) ?toks)"
  have loop: "gen_batch_loop gen_token_ids examples ([], [], [0]) =
      Inr (concat ?toks, ?pos, lod_offsets (map length ?toks))"
    using gen_batch_loop_ok[OF assms(2), of "[]" "[]" "[0]"]
      lod_offsets_shift[of "map length ?toks"]
    by (simp add: length_token_lists)
  have i64: "int64_array (concat ?toks) = Inr (concat ?toks)"
    by (rule int64_array_ok) (rule tokenizes_concat[OF assms(2)])
  have len: "length ?pos = length (concat ?toks)"
    by (induction ?toks) (simp_all add: length_concat comp_def)
  have "map length ?toks \<noteq> []" using assms(1) by (simp add: token_lists_def)
  from check_lod_offsets[OF this]
  have ok: "check_lod [lod_offsets (map length ?toks)] (length (concat ?toks))"
    by (simp add: sum_list_map_length)
  show ?thesis
    by (simp add: gen_batch_data_def loop i64 reshape_def set_lod_def tensor_set_def len ok)
qed

theorem gen_batch_data_offsets_witness:
  "[''AC'', ''G''] \<noteq> [] \<and>
   tokenizes char_tokenizer ''AC'' \<and> tokenizes char_tokenizer ''G'' \<and>
   (\<exists>batch. gen_batch_data [''AC'', ''G''] char_tokenizer () = Inr batch \<and>
      tensor_lod (protein_token batch) = [[0, 2, 3]] \<and>
      tensor_lod (protein_pos batch) = [[0, 2, 3]] \<and>
      flat (tensor_data (protein_token batch)) = [65, 67, 71] \<and>
      flat (tensor_data (protein_pos batch)) = [0, 1, 0] \<and>
      shape (tensor_data (protein_token batch)) = (3, 1) \<and>
      shape (tensor_data (protein_pos batch)) = (3, 1))"
proof -
  have n: "[''AC'', ''G''] \<noteq> []" by simp
  have a: "tokenizes char_tokenizer ''AC''" by code_simp
  have g: "tokenizes char_tokenizer ''G''" by code_simp
  have h: "\<forall>e\<in>set [''AC'', ''G'']. tokenizes char_tokenizer e" using a g by simp
  have t: "token_lists char_tokenizer [''AC'', ''G''] = [[65, 67], [71]]" by code_simp
  have l: "lod_offsets (map length [[65, 67], [71::int]]) = [0, 2, 3]" by code_simp
  have p: "concat (map (\<lambda>ids. map int [0..<length ids]) [[65, 67], [71::int]]) = [0, 1, 0]"
    by code_simp
  from gen_batch_data_offsets[OF n h, of "()"] a g show ?thesis
    unfolding t l p by (simp add: numeral_3_eq_3)
qed

subsection \<open>C9: the batches of a pass, concatenated\<close>

text \<open>
  Claim C9. For well-formed archives the concatenation of the batches yielded in one pass
  is the list of all examples, ordered by the position of the file in \<open>filenames\<close> and
  then by the example index within the file: nothing is dropped, duplicated or
  reordered. This holds for every batch size. The accumulator is not cleared between
  files, so a batch can hold examples of two files: with a batch size of 3, the first
  batch over \<open>a.npz\<close> (two examples) and \<open>c.npz\<close> holds both examples of \<open>a.npz\<close>
  and the first example of \<open>c.npz\<close>.
\<close>

theorem batches_concat_in_file_order:
  "(keeps_length apply_bert_mask \<and> (\<forall>f\<in>set filenames. pretrain_well_formed env f) \<longrightarrow>
      snd (fst (pretrain_sample_reader apply_bert_mask filenames batch_size env rng)) = None \<and>
      concat (fst (fst (pretrain_sample_reader apply_bert_mask filenames batch_size env rng))) =
        pretrain_examples apply_bert_mask env filenames rng) \<and>
   ((\<forall>f\<in>set filenames. sequence_well_formed env label_name f) \<longrightarrow>
      snd (fst (sequence_sample_reader filenames batch_size label_name env rng)) = None \<and>
      concat (fst (fst (sequence_sample_reader filenames batch_size label_name env rng))) =
        concat (map (sequence_examples env label_name) filenames)) \<and>
   ((\<forall>f\<in>set filenames. normal_well_formed env label_name f) \<longrightarrow>
      snd (fst (normal_sample_reader filenames batch_size label_name env rng)) = None \<and>
      concat (fst (fst (normal_sample_reader filenames batch_size label_name env rng))) =
        concat (map (normal_examples env label_name) filenames)) \<and>
   hd (fst (fst (sequence_sample_reader [''a.npz'', ''c.npz''] 3 ''labels'' demo_env rng))) =
     sequence_examples demo_env ''labels'' ''a.npz'' @
     take 1 (sequence_examples demo_env ''labels'' ''c.npz'')"
proof -
  have a: "sequence_well_formed demo_env ''labels'' ''a.npz''" by code_simp
  have c: "sequence_well_formed demo_env ''labels'' ''c.npz''" by code_simp
  have "\<forall>f\<in>set [''a.npz'', ''c.npz'']. sequence_well_formed demo_env ''labels'' f"
    using a c by simp
  then have "fst (fst (sequence_sample_reader [''a.npz'', ''c.npz''] 3 ''labels'' demo_env rng)) =
      batches 3 (concat (map (sequence_examples demo_env ''labels'') [''a.npz'', ''c.npz'']))"
    by (simp only: sequence_pass fst_conv)
  moreover have "hd (batches 3 (concat (map (sequence_examples demo_env ''labels'') [''a.npz'', ''c.npz'']))) =
     sequence_examples demo_env ''labels'' ''a.npz'' @
     take 1 (sequence_examples demo_env ''labels'' ''c.npz'')"
    by code_simp
  ultimately have "hd (fst (fst (sequence_sample_reader [''a.npz'', ''c.npz''] 3 ''labels'' demo_env rng))) =
     sequence_examples demo_env ''labels'' ''a.npz'' @
     take 1 (sequence_examples demo_env ''labels'' ''c.npz'')"
    by (simp only:)
  then show ?thesis
    by (simp add: pretrain_pass sequence_pass normal_pass concat_batches)
qed

theorem batches_concat_in_file_order_witness:
  "sequence_well_formed demo_env ''labels'' ''a.npz'' \<and>
   sequence_well_formed demo_env ''labels'' ''c.npz'' \<and>
   concat (fst (fst (sequence_sample_reader [''a.npz'', ''c.npz''] 3 ''labels'' demo_env ()))) =
     [(NDArray (2, 1) [1, 2], NDArray (2, 1) [0, 1], NDArray (2, 1) [10, 20]),
      (NDArray (3, 1) [3, 4, 5], NDArray (3, 1) [0, 1, 2], NDArray (3, 1) [30, 40, 50]),
      (NDArray (1, 1) [6], NDArray (1, 1) [0], NDArray (1, 1) [60]),
      (NDArray (2, 1) [7, 8], NDArray (2, 1) [0, 1], NDArray (2, 1) [70, 80])]"
proof -
  have a: "sequence_well_formed demo_env ''labels'' ''a.npz''" by code_simp
  have c: "sequence_well_formed demo_env ''labels'' ''c.npz''" by code_simp
  have wf: "\<forall>f\<in>set [''a.npz'', ''c.npz'']. sequence_well_formed demo_env ''labels'' f"
    using a c by simp
  have e: "concat (map (sequence_examples demo_env ''labels'') [''a.npz'', ''c.npz'']) =
     [(NDArray (2, 1) [1, 2], NDArray (2, 1) [0, 1], NDArray (2, 1) [10, 20]),
      (NDArray (3, 1) [3, 4, 5], NDArray (3, 1) [0, 1, 2], NDArray (3, 1) [30, 40, 50]),
      (NDArray (1, 1) [6], NDArray (1, 1) [0], NDArray (1, 1) [60]),
      (NDArray (2, 1) [7, 8], NDArray (2, 1) [0, 1], NDArray (2, 1) [70, 80])]"
    by code_simp
  from batches_concat_in_file_order
         [where filenames = "[''a.npz'', ''c.npz'']" and env = demo_env and label_name = "''labels''"
            and batch_size = 3 and rng = "()"] wf
  have "concat (fst (fst (sequence_sample_reader [''a.npz'', ''c.npz''] 3 ''labels'' demo_env ()))) =
        concat (map (sequence_examples demo_env ''labels'') [''a.npz'', ''c.npz''])"
    by blast
  with a c e show ?thesis by (simp only: simp_thms)
qed

subsection \<open>C10: a batch size that is not positive\<close>

text \<open>
  Claim C10 says that for \<open>batch_size \<le> 0\<close> and a non-empty list of well-formed
  archives a pass yields exactly one batch, the final one, with all \<open>N\<close> examples. That
  fails when the archives hold no example: \<open>e.npz\<close> is well-formed (its arrays are
  empty), and a pass over it yields no batch at all, because the final batch is yielded
  only when the accumulator is not empty (lines 52-53).
\<close>

theorem nonpositive_batch_size_counterexample:
  "pretrain_well_formed demo_env ''e.npz'' \<and>
   sequence_well_formed demo_env ''labels'' ''e.npz'' \<and>
   normal_well_formed demo_env ''labels'' ''e.npz'' \<and>
   fst (pretrain_sample_reader demo_mask [''e.npz''] 0 demo_env 0) = ([], None) \<and>
   fst (sequence_sample_reader [''e.npz''] 0 ''labels'' demo_env ()) = ([], None) \<and>
   fst (normal_sample_reader [''e.npz''] (- 1) ''labels'' demo_env ()) = ([], None)"
  by code_simp

text \<open>
  Claim C10, amended. For \<open>batch_size \<le> 0\<close> and well-formed archives with \<open>N\<close>
  examples in total, no batch is yielded while the files are read (the test
  \<open>len(examples) == batch_size\<close> follows an append and cannot succeed). When \<open>N \<ge> 1\<close>
  the pass yields exactly one batch, the final one, holding all \<open>N\<close> examples in order;
  when \<open>N = 0\<close> it yields no batch. In both cases it ends without an exception.
\<close>

theorem nonpositive_batch_size_single_batch:
  "(batch_size \<le> 0 \<and> keeps_length apply_bert_mask \<and>
    (\<forall>f\<in>set filenames. pretrain_well_formed env f) \<longrightarrow>
      fst (pretrain_sample_reader apply_bert_mask filenames batch_size env rng) =
        (if example_count env filenames = 0 then []
         else [pretrain_examples apply_bert_mask env filenames rng], None)) \<and>
   (batch_size \<le> 0 \<and> (\<forall>f\<in>set filenames. sequence_well_formed env label_name f) \<longrightarrow>
      fst (sequence_sample_reader filenames batch_size label_name env rng) =
        (if example_count env filenames = 0 then []
         else [concat (map (sequence_examples env label_name) filenames)], None)) \<and>
   (batch_size \<le> 0 \<and> (\<forall>f\<in>set filenames. normal_well_formed env label_name f) \<longrightarrow>
      fst (normal_sample_reader filenames batch_size label_name env rng) =
        (if example_count env filenames = 0 then []
         else [concat (map (normal_examples env label_name) filenames)], None))"
proof -
  have p: "(pretrain_examples apply_bert_mask env filenames rng = []) =
             (example_count env filenames = 0)"
    using length_pretrain_examples[of apply_bert_mask env filenames rng] by (metis length_0_conv)
  have s: "(concat (map (sequence_examples env label_name) filenames) = []) =
             (example_count env filenames = 0)"
    using length_sequence_examples[of env label_name filenames] by (metis length_0_conv)
  have n: "(concat (map (normal_examples env label_name) filenames) = []) =
             (example_count env filenames = 0)"
    using length_normal_examples[of env label_name filenames] by (metis length_0_conv)
  show ?thesis
    by (simp add: pretrain_pass sequence_pass normal_pass batches_never p s n
             del: concat_eq_Nil_conv)
qed

theorem nonpositive_batch_size_single_batch_witness:
  "keeps_length demo_mask \<and> pretrain_well_formed demo_env ''a.npz'' \<and>
   pretrain_well_formed demo_env ''e.npz'' \<and>
   example_count demo_env [''a.npz'', ''e.npz''] = 2 \<and>
   fst (pretrain_sample_reader demo_mask [''a.npz'', ''e.npz''] (- 1) demo_env 0) =
     ([[(NDArray (2, 1) [0, 2], NDArray (2, 1) [0, 1], NDArray (2, 1) [1, - 1]),
        (NDArray (3, 1) [3, 4, 5], NDArray (3, 1) [0, 1, 2], NDArray (3, 1) [- 1, - 1, - 1])]],
      None) \<and>
   example_count demo_env [''e.npz''] = 0 \<and>
   fst (pretrain_sample_reader demo_mask [''e.npz''] 0 demo_env 0) = ([], None)"
proof -
  have a: "pretrain_well_formed demo_env ''a.npz''" by code_simp
  have e: "pretrain_well_formed demo_env ''e.npz''" by code_simp
  have n2: "example_count demo_env [''a.npz'', ''e.npz''] = 2" by code_simp
  have n0: "example_count demo_env [''e.npz''] = 0" by code_simp
  have ex: "pretrain_examples demo_mask demo_env [''a.npz'', ''e.npz''] 0 =
     [(NDArray (2, 1) [0, 2], NDArray (2, 1) [0, 1], NDArray (2, 1) [1, - 1]),
      (NDArray (3, 1) [3, 4, 5], NDArray (3, 1) [0, 1, 2], NDArray (3, 1) [- 1, - 1, - 1])]"
    by code_simp
  have wf2: "\<forall>f\<in>set [''a.npz'', ''e.npz'']. pretrain_well_formed demo_env f" using a e by simp
  have wf0: "\<forall>f\<in>set [''e.npz'']. pretrain_well_formed demo_env f" using e by simp
  from nonpositive_batch_size_single_batch
         [where batch_size = "- 1" and apply_bert_mask = demo_mask
            and filenames = "[''a.npz'', ''e.npz'']" and env = demo_env and rng = 0]
       keeps_length_demo_mask wf2 n2 ex
  have r2: "fst (pretrain_sample_reader demo_mask [''a.npz'', ''e.npz''] (- 1) demo_env 0) =
     ([[(NDArray (2, 1) [0, 2], NDArray (2, 1) [0, 1], NDArray (2, 1) [1, - 1]),
        (NDArray (3, 1) [3, 4, 5], NDArray (3, 1) [0, 1, 2], NDArray (3, 1) [- 1, - 1, - 1])]],
      None)"
    by simp
  from nonpositive_batch_size_single_batch
         [where batch_size = 0 and apply_bert_mask = demo_mask
            and filenames = "[''e.npz'']" and env = demo_env and rng = 0]
       keeps_length_demo_mask wf0 n0
  have r0: "fst (pretrain_sample_reader demo_mask [''e.npz''] 0 demo_env 0) = ([], None)"
    by simp
  from keeps_length_demo_mask a e n2 r2 n0 r0 show ?thesis by (intro conjI)
qed

end
